theory Spec2Isabelle
  imports Complex_Main
begin

section \<open>Python values seen by the face matcher\<close>

text \<open>
  A distance is a Python float. Only comparisons are made on it, so a float is modelled by
  the real number it denotes, plus the one value on which comparison is not an order:
  every comparison with NaN is false. (An infinity compares like a real beyond every
  constant of the program.)
\<close>

datatype pyfloat = Fl real | NaN

fun fle :: "pyfloat \<Rightarrow> pyfloat \<Rightarrow> bool" where
  "fle (Fl a) (Fl b) = (a \<le> b)"
| "fle _ _ = False"

fun flt :: "pyfloat \<Rightarrow> pyfloat \<Rightarrow> bool" where
  "flt (Fl a) (Fl b) = (a < b)"
| "flt _ _ = False"

text \<open>\<^verbatim>\<open>DISTANCE_THRESHOLD = 0.6\<close>\<close>

definition DISTANCE_THRESHOLD :: pyfloat where
  "DISTANCE_THRESHOLD = Fl (6 / 10)"

text \<open>
  The values stored in the dictionary that \<^verbatim>\<open>DeepFace.verify\<close> returns: booleans,
  numbers and \<^verbatim>\<open>None\<close>. \<open>py_bool\<close> is Python's \<^verbatim>\<open>bool(v)\<close>, \<open>py_float\<close> is
  \<^verbatim>\<open>float(v)\<close>, with \<open>None\<close> where Python raises TypeError.
\<close>

datatype pyval = PyNone | PyBool bool | PyFloat pyfloat

fun py_bool :: "pyval \<Rightarrow> bool" where
  "py_bool PyNone = False"
| "py_bool (PyBool b) = b"
| "py_bool (PyFloat (Fl x)) = (x \<noteq> 0)"
| "py_bool (PyFloat NaN) = True"

fun py_float :: "pyval \<Rightarrow> pyfloat option" where
  "py_float PyNone = None"
| "py_float (PyBool b) = Some (Fl (if b then 1 else 0))"
| "py_float (PyFloat x) = Some x"

text \<open>
  The external verification service, called on two image paths, either raises (with a
  message) or returns a dictionary.
\<close>

datatype service_result = Raises string | Returns "string \<rightharpoonup> pyval"

type_synonym verifier = "string \<Rightarrow> string \<Rightarrow> service_result"

text \<open>The third component of the matcher's result: the service's dictionary, or
  \<^verbatim>\<open>{"error": str(e)}\<close>.\<close>

datatype details = Res "string \<rightharpoonup> pyval" | ErrorDetail string

section \<open>Face verification helper\<close>

text \<open>
  The loop over the keys \<^verbatim>\<open>("distance", "cosine", "euclidean")\<close>: the first key that is
  in the dictionary and whose value converts to a float gives the distance; a key that
  is absent, or whose conversion raises, is passed over.
\<close>

fun find_distance :: "(string \<rightharpoonup> pyval) \<Rightarrow> string list \<Rightarrow> pyfloat option" where
  "find_distance res [] = None"
| "find_distance res (k # ks) =
     (case res k of
        None \<Rightarrow> find_distance res ks
      | Some v \<Rightarrow>
          (case py_float v of
             Some d \<Rightarrow> Some d
           | None \<Rightarrow> find_distance res ks))"

definition distance_keys :: "string list" where
  "distance_keys = [''distance'', ''cosine'', ''euclidean'']"

definition verified_of :: "(string \<rightharpoonup> pyval) \<Rightarrow> bool" where
  "verified_of res = py_bool (case res ''verified'' of None \<Rightarrow> PyBool False | Some v \<Rightarrow> v)"

definition try_verify_faces ::
  "verifier \<Rightarrow> string \<Rightarrow> string \<Rightarrow> bool \<times> pyfloat option \<times> details" where
  "try_verify_faces verify img1_path img2_path =
     (case verify img1_path img2_path of
        Raises e \<Rightarrow> (False, None, ErrorDetail e)
      | Returns res \<Rightarrow>
          (let verified = verified_of res;
               distance = find_distance res distance_keys;
               match = (case distance of
                          Some d \<Rightarrow> fle d DISTANCE_THRESHOLD
                        | None \<Rightarrow> verified)
           in (match, distance, Res res)))"

section \<open>Tables\<close>

text \<open>
  The three CSV files are tables of string-valued rows, written whole and read whole. A
  table is the list of its rows in file order. Reading is not the inverse of writing:
  \<^verbatim>\<open>pd.read_csv(..., dtype=str).fillna("")\<close> takes a field whose text is one of pandas'
  tokens for a missing value for missing, and gives the empty string for it. A table of
  the state below is the table as the next load returns it.
\<close>

record member =
  ID :: string
  Name :: string
  Gender :: string
  Email :: string
  Mobile :: string
  Membership :: string
  Fee :: string
  JoinDate :: string
  ImagePath :: string

record deleted_member = member +
  DeletedAt :: string

record attendance_record =
  att_ID :: string
  att_Name :: string
  Date :: string
  EntryTime :: string
  ExitTime :: string
  Status :: string

text \<open>The files of the working directory: a path that exists carries its content.\<close>

type_synonym files = "string \<rightharpoonup> string"

section \<open>Identity resolution: the matching scan of the Entry and Exit pages\<close>

text \<open>
  The loop variables \<^verbatim>\<open>best\<close> (a pair of a row and its distance, or \<^verbatim>\<open>None\<close>) and
  \<^verbatim>\<open>best_dist\<close>. One round of the loop either goes on to the next row
  (\<^verbatim>\<open>continue\<close>, or the end of the body) or leaves the loop (\<^verbatim>\<open>break\<close>).
\<close>

record scan_state =
  best :: "(member \<times> pyfloat option) option"
  best_dist :: pyfloat

datatype loop_ctl = Continue scan_state | Break scan_state

definition scan_step :: "verifier \<Rightarrow> files \<Rightarrow> string \<Rightarrow> scan_state \<Rightarrow> member \<Rightarrow> loop_ctl" where
  "scan_step verify fs temp_path st row =
     (let member_img = ImagePath row in
      if member_img = [] \<or> fs member_img = None then Continue st
      else
        (case try_verify_faces verify temp_path member_img of
           (match, distance, _) \<Rightarrow>
             (case distance of
                None \<Rightarrow>
                  if match then Break (st\<lparr>best := Some (row, distance)\<rparr>)
                  else Continue st
              | Some d \<Rightarrow>
                  (let st' = (if flt d (best_dist st)
                              then st\<lparr>best_dist := d, best := Some (row, distance)\<rparr>
                              else st)
                   in if fle d DISTANCE_THRESHOLD then Break st' else Continue st'))))"

fun scan_loop :: "verifier \<Rightarrow> files \<Rightarrow> string \<Rightarrow> scan_state \<Rightarrow> member list \<Rightarrow> scan_state" where
  "scan_loop verify fs temp_path st [] = st"
| "scan_loop verify fs temp_path st (row # rows) =
     (case scan_step verify fs temp_path st row of
        Break st' \<Rightarrow> st'
      | Continue st' \<Rightarrow> scan_loop verify fs temp_path st' rows)"

text \<open>\<^verbatim>\<open>best = None; best_dist = 1e9\<close>\<close>

definition scan_init :: scan_state where
  "scan_init = \<lparr>best = None, best_dist = Fl 1000000000\<rparr>"

text \<open>
  What the page does after the loop: no table, no candidate, a candidate that the final
  test \<^verbatim>\<open>is_match\<close> rejects, or a member accepted with its distance.
\<close>

datatype resolution =
    NoRegisteredMembers
  | NoMatchingMember
  | NotSufficient
  | Matched member "pyfloat option"

definition is_match :: "pyfloat option \<Rightarrow> bool" where
  "is_match dst = (case dst of Some d \<Rightarrow> fle d DISTANCE_THRESHOLD | None \<Rightarrow> True)"

definition resolve :: "verifier \<Rightarrow> files \<Rightarrow> string \<Rightarrow> member list \<Rightarrow> resolution" where
  "resolve verify fs temp_path members =
     (if members = [] then NoRegisteredMembers
      else
        (case best (scan_loop verify fs temp_path scan_init members) of
           None \<Rightarrow> NoMatchingMember
         | Some (row, dst) \<Rightarrow>
             if is_match dst then Matched row dst else NotSufficient))"

section \<open>Dates and times\<close>

text \<open>
  \<^verbatim>\<open>datetime.now()\<close> and \<^verbatim>\<open>date\<close> values, and the three renderings the program uses:
  \<^verbatim>\<open>strftime("%Y-%m-%d")\<close> (which is also \<^verbatim>\<open>str\<close> of a date),
  \<^verbatim>\<open>strftime("%H:%M:%S")\<close> and \<^verbatim>\<open>str\<close> of a datetime. Years have four digits.
\<close>

record pydate =
  year :: nat
  month :: nat
  day :: nat

record datetime = pydate +
  hour :: nat
  minute :: nat
  second :: nat
  microsecond :: nat

definition digit_char :: "nat \<Rightarrow> char" where
  "digit_char d = char_of (48 + d)"

text \<open>\<open>zpad k n\<close>: the last \<open>k\<close> decimal digits of \<open>n\<close>, zero padded (\<^verbatim>\<open>%02d\<close> for \<open>k = 2\<close>).\<close>

fun zpad :: "nat \<Rightarrow> nat \<Rightarrow> string" where
  "zpad 0 n = []"
| "zpad (Suc k) n = zpad k (n div 10) @ [digit_char (n mod 10)]"

definition strftime_Ymd :: "'a pydate_scheme \<Rightarrow> string" where
  "strftime_Ymd d = zpad 4 (year d) @ ''-'' @ zpad 2 (month d) @ ''-'' @ zpad 2 (day d)"

definition strftime_HMS :: "datetime \<Rightarrow> string" where
  "strftime_HMS t = zpad 2 (hour t) @ '':'' @ zpad 2 (minute t) @ '':'' @ zpad 2 (second t)"

definition str_datetime :: "datetime \<Rightarrow> string" where
  "str_datetime t =
     strftime_Ymd t @ '' '' @ strftime_HMS t @
     (if microsecond t \<noteq> 0 then ''.'' @ zpad 6 (microsecond t) else [])"

section \<open>Attendance ledger\<close>

datatype att_error = AlreadyMarked | NoOpenEntry

text \<open>
  The record creation of the Entry page, for the member \<open>row\<close> that the scan accepted:
  \<^verbatim>\<open>exists\<close> are the rows of today for this ID; a new open row is appended when there is
  none.
\<close>

definition mark_entry ::
  "member \<Rightarrow> datetime \<Rightarrow> attendance_record list \<Rightarrow> att_error + attendance_record list" where
  "mark_entry row now attendance =
     (let today = strftime_Ymd now;
          idstr = ID row;
          exists = filter (\<lambda>r. att_ID r = idstr \<and> Date r = today) attendance
      in if exists \<noteq> [] then Inl AlreadyMarked
         else
           (let new_entry = \<lparr>att_ID = idstr, att_Name = Name row, Date = today,
                             EntryTime = strftime_HMS now, ExitTime = [],
                             Status = ''Present''\<rparr>
            in Inr (attendance @ [new_entry])))"

text \<open>
  The record update of the Exit page: \<^verbatim>\<open>open_rows\<close> are the index labels of today's rows
  of this ID whose ExitTime is empty (a table read from its file is labelled
  \<open>0, 1, 2, \<dots>\<close>); the row at the first of them is updated in place.
\<close>

definition mark_exit ::
  "member \<Rightarrow> datetime \<Rightarrow> attendance_record list \<Rightarrow> att_error + attendance_record list" where
  "mark_exit row now attendance =
     (let today = strftime_Ymd now;
          idstr = ID row;
          open_rows = filter (\<lambda>i. att_ID (attendance ! i) = idstr \<and> Date (attendance ! i) = today
                                    \<and> ExitTime (attendance ! i) = [])
                        [0 ..< length attendance]
      in case open_rows of
           [] \<Rightarrow> Inl NoOpenEntry
         | idx # _ \<Rightarrow>
             Inr (attendance[idx := (attendance ! idx)\<lparr>ExitTime := strftime_HMS now,
                                                      Status := ''Exited''\<rparr>]))"

section \<open>The application state and the two attendance pages\<close>

text \<open>
  The persistent state: the three tables, each as the next load returns it, and the other
  files of the working directory (photos and the temporary captures). A camera capture is seen through what the program
  does with it: \<open>pil_jpeg\<close> is the JPEG that PIL re-encodes from it (\<open>None\<close> when PIL
  raises), \<open>raw_bytes\<close> is its content when the object is a bytes object that a binary
  file accepts (\<open>None\<close> when \<^verbatim>\<open>f.write\<close> raises TypeError).
\<close>

record app_state =
  MEM_FILE :: "member list"
  ATT_FILE :: "attendance_record list"
  DELETED_FILE :: "deleted_member list"
  disk :: files

record uploaded =
  pil_jpeg :: "string option"
  raw_bytes :: "string option"

datatype att_msg =
    NothingCaptured
  | FailedToReadCameraImage
  | NoRegisteredMembersToMatch
  | NoMatchFound
  | FaceDidNotMatchSufficiently
  | EntryAlreadyMarkedToday
  | EntryRecorded
  | NoOpenEntryFound
  | ExitRecorded

text \<open>
  The Entry page. The capture is re-encoded into \<^verbatim>\<open>temp_entry.jpg\<close>; the scan runs over
  the members table; an accepted member gets its entry marked.
\<close>

definition attendance_entry ::
  "verifier \<Rightarrow> uploaded option \<Rightarrow> datetime \<Rightarrow> app_state \<Rightarrow> att_msg \<times> app_state" where
  "attendance_entry verify upl now st =
     (case upl of
        None \<Rightarrow> (NothingCaptured, st)
      | Some u \<Rightarrow>
          (case pil_jpeg u of
             None \<Rightarrow> (FailedToReadCameraImage, st)
           | Some jpeg \<Rightarrow>
               (let temp_path = ''temp_entry.jpg'';
                    st1 = st\<lparr>disk := (disk st)(temp_path \<mapsto> jpeg)\<rparr>
                in case resolve verify (disk st1) temp_path (MEM_FILE st1) of
                     NoRegisteredMembers \<Rightarrow> (NoRegisteredMembersToMatch, st1)
                   | NoMatchingMember \<Rightarrow> (NoMatchFound, st1)
                   | NotSufficient \<Rightarrow> (FaceDidNotMatchSufficiently, st1)
                   | Matched row dst \<Rightarrow>
                       (case mark_entry row now (ATT_FILE st1) of
                          Inl e \<Rightarrow> (EntryAlreadyMarkedToday, st1)
                        | Inr attendance' \<Rightarrow>
                            (EntryRecorded, st1\<lparr>ATT_FILE := attendance'\<rparr>)))))"

text \<open>The Exit page: the same scan, from \<^verbatim>\<open>temp_exit.jpg\<close>, then the exit is marked.\<close>

definition attendance_exit ::
  "verifier \<Rightarrow> uploaded option \<Rightarrow> datetime \<Rightarrow> app_state \<Rightarrow> att_msg \<times> app_state" where
  "attendance_exit verify upl now st =
     (case upl of
        None \<Rightarrow> (NothingCaptured, st)
      | Some u \<Rightarrow>
          (case pil_jpeg u of
             None \<Rightarrow> (FailedToReadCameraImage, st)
           | Some jpeg \<Rightarrow>
               (let temp_path = ''temp_exit.jpg'';
                    st1 = st\<lparr>disk := (disk st)(temp_path \<mapsto> jpeg)\<rparr>
                in case resolve verify (disk st1) temp_path (MEM_FILE st1) of
                     NoRegisteredMembers \<Rightarrow> (NoRegisteredMembersToMatch, st1)
                   | NoMatchingMember \<Rightarrow> (NoMatchFound, st1)
                   | NotSufficient \<Rightarrow> (FaceDidNotMatchSufficiently, st1)
                   | Matched row dst \<Rightarrow>
                       (case mark_exit row now (ATT_FILE st1) of
                          Inl e \<Rightarrow> (NoOpenEntryFound, st1)
                        | Inr attendance' \<Rightarrow>
                            (ExitRecorded, st1\<lparr>ATT_FILE := attendance'\<rparr>)))))"

section \<open>Python strings and integers\<close>

text \<open>
  A Python string is the list of its code points; the characters here are the code points
  below 256. \<open>py_isspace\<close> and \<open>py_isalnum\<close> are \<^verbatim>\<open>str.isspace\<close> and \<^verbatim>\<open>str.isalnum\<close>
  on them, \<open>py_strip\<close> is \<^verbatim>\<open>str.strip()\<close>.
\<close>

definition py_isspace :: "char \<Rightarrow> bool" where
  "py_isspace c =
     (let n = (of_char c :: nat)
      in (9 \<le> n \<and> n \<le> 13) \<or> (28 \<le> n \<and> n \<le> 32) \<or> n = 133 \<or> n = 160)"

definition py_isalnum :: "char \<Rightarrow> bool" where
  "py_isalnum c =
     (let n = (of_char c :: nat)
      in (48 \<le> n \<and> n \<le> 57) \<or> (65 \<le> n \<and> n \<le> 90) \<or> (97 \<le> n \<and> n \<le> 122)
         \<or> n = 170 \<or> n = 178 \<or> n = 179 \<or> n = 181 \<or> n = 185 \<or> n = 186
         \<or> (188 \<le> n \<and> n \<le> 190) \<or> (192 \<le> n \<and> n \<le> 214)
         \<or> (216 \<le> n \<and> n \<le> 246) \<or> (248 \<le> n \<and> n \<le> 255))"

definition py_strip :: "string \<Rightarrow> string" where
  "py_strip s = rev (dropWhile py_isspace (rev (dropWhile py_isspace s)))"

datatype py_error = TypeError | IndexError | ValueError | FileNotFoundError

text \<open>
  \<^verbatim>\<open>int(v)\<close> on a string. The whitespace it skips at both ends is not that of
  \<^verbatim>\<open>str.strip\<close>: of the ASCII characters only tab, line feed, vertical tab, form feed,
  carriage return and space, and the whitespace beyond ASCII (U+0085 and U+00A0 below
  256), which is read as a space. Then one sign is allowed, then decimal digits, where
  single underscores may stand between digits. More digits than the interpreter's limit
  (4300 unless configured otherwise) are refused. \<open>None\<close> is ValueError.
\<close>

definition int_max_str_digits :: nat where
  "int_max_str_digits = 4300"

definition int_isspace :: "char \<Rightarrow> bool" where
  "int_isspace c =
     (let n = (of_char c :: nat)
      in (9 \<le> n \<and> n \<le> 13) \<or> n = 32 \<or> n = 133 \<or> n = 160)"

definition int_strip :: "string \<Rightarrow> string" where
  "int_strip s = rev (dropWhile int_isspace (rev (dropWhile int_isspace s)))"

definition digit_val :: "char \<Rightarrow> nat option" where
  "digit_val c =
     (let n = (of_char c :: nat)
      in if 48 \<le> n \<and> n \<le> 57 then Some (n - 48) else None)"

fun parse_digits :: "nat \<Rightarrow> string \<Rightarrow> nat option" where
  "parse_digits acc [] = Some acc"
| "parse_digits acc (c # cs) =
     (if c = CHR ''_'' then
        (case cs of
           [] \<Rightarrow> None
         | d # ds \<Rightarrow>
             (case digit_val d of
                None \<Rightarrow> None
              | Some v \<Rightarrow> parse_digits (10 * acc + v) ds))
      else
        (case digit_val c of
           None \<Rightarrow> None
         | Some v \<Rightarrow> parse_digits (10 * acc + v) cs))"

definition parse_literal :: "string \<Rightarrow> nat option" where
  "parse_literal s =
     (case s of
        [] \<Rightarrow> None
      | c # cs \<Rightarrow>
          (case digit_val c of
             None \<Rightarrow> None
           | Some v \<Rightarrow> parse_digits v cs))"

text \<open>The value of a signless literal, when it is well formed and within the limit on the
  number of digits (underscores do not count).\<close>

definition parse_decimal :: "string \<Rightarrow> nat option" where
  "parse_decimal s =
     (case parse_literal s of
        None \<Rightarrow> None
      | Some n \<Rightarrow>
          if length (filter (\<lambda>d. d \<noteq> CHR ''_'') s) > int_max_str_digits then None
          else Some n)"

definition py_int :: "string \<Rightarrow> int option" where
  "py_int s =
     (case int_strip s of
        [] \<Rightarrow> None
      | c # cs \<Rightarrow>
          if c = CHR ''-'' then map_option (\<lambda>n. - int n) (parse_decimal cs)
          else if c = CHR ''+'' then map_option int (parse_decimal cs)
          else map_option int (parse_decimal (c # cs)))"

text \<open>\<^verbatim>\<open>str(n)\<close> for an integer: ValueError when it has more digits than the limit.\<close>

fun decimal :: "nat \<Rightarrow> string" where
  "decimal n = (if n < 10 then [digit_char n] else decimal (n div 10) @ [digit_char (n mod 10)])"

declare decimal.simps [simp del]

definition py_str :: "int \<Rightarrow> py_error + string" where
  "py_str n =
     (let digits = decimal (nat \<bar>n\<bar>)
      in if length digits > int_max_str_digits then Inl ValueError
         else Inr (if n < 0 then CHR ''-'' # digits else digits))"

section \<open>ID generator\<close>

text \<open>The loop that collects the IDs that convert to an integer, in table order.\<close>

fun numeric_ids :: "string list \<Rightarrow> int list" where
  "numeric_ids [] = []"
| "numeric_ids (v # vs) =
     (case py_int v of
        Some n \<Rightarrow> n # numeric_ids vs
      | None \<Rightarrow> numeric_ids vs)"

text \<open>\<^verbatim>\<open>max(nums)\<close> on a list that is not empty.\<close>

fun py_max :: "int list \<Rightarrow> int" where
  "py_max [] = 0"
| "py_max (x # xs) = fold max xs x"

text \<open>The generator raises what \<^verbatim>\<open>str\<close> raises.\<close>

definition generate_member_id :: "member list \<Rightarrow> py_error + string" where
  "generate_member_id members =
     (if members = [] then Inr ''1''
      else
        (let nums = numeric_ids (map ID members)
         in if nums = [] then Inr ''1'' else py_str (py_max nums + 1)))"

section \<open>Save image helper\<close>

definition IMG_DIR :: string where
  "IMG_DIR = ''member_images''"

text \<open>\<^verbatim>\<open>os.path.join\<close> of two components (POSIX).\<close>

definition os_path_join :: "string \<Rightarrow> string \<Rightarrow> string" where
  "os_path_join a b =
     (if b \<noteq> [] \<and> hd b = CHR ''/'' then b
      else if a = [] \<or> last a = CHR ''/'' then a @ b
      else a @ ''/'' @ b)"

definition safe_name_of :: "string \<Rightarrow> string" where
  "safe_name_of name =
     map (\<lambda>c. if c = CHR '' '' then CHR ''_'' else c)
       (py_strip (filter (\<lambda>c. py_isalnum c \<or> c = CHR '' '' \<or> c = CHR ''_'') name))"

definition image_path :: "string \<Rightarrow> string \<Rightarrow> string" where
  "image_path member_id name =
     (let safe_name = safe_name_of name;
          filename = member_id @ ''_'' @ safe_name @ ''.jpg''
      in os_path_join IMG_DIR filename)"

text \<open>
  \<^verbatim>\<open>os.path.dirname\<close> (POSIX): the path up to its last slash, without the slashes at
  the end of that unless it consists of slashes only.
\<close>

definition dirname :: "string \<Rightarrow> string" where
  "dirname p =
     (let head = rev (dropWhile (\<lambda>c. c \<noteq> CHR ''/'') (rev p))
      in if head \<noteq> [] \<and> (\<exists>c\<in>set head. c \<noteq> CHR ''/'')
         then rev (dropWhile (\<lambda>c. c = CHR ''/'') (rev head))
         else head)"

text \<open>
  A file can be created in a directory that exists. The image directory does, the program
  makes it when it starts; \<open>isdir\<close> says which other directories exist.
\<close>

definition dir_exists :: "(string \<Rightarrow> bool) \<Rightarrow> string \<Rightarrow> bool" where
  "dir_exists isdir d = (d = IMG_DIR \<or> isdir d)"

text \<open>
  The helper writes PIL's JPEG to the path; when PIL raises, it opens the path for
  writing (which empties it) and writes the object itself, which raises unless the object
  is bytes. When the directory of the path does not exist, PIL's save raises and so does
  the opening of the path, and nothing is written. The helper returns the path, or
  raises; the files are returned as it leaves them.
\<close>

definition save_member_image ::
  "(string \<Rightarrow> bool) \<Rightarrow> uploaded \<Rightarrow> string \<Rightarrow> string \<Rightarrow> files \<Rightarrow> (py_error + string) \<times> files" where
  "save_member_image isdir uploaded_file member_id name fs =
     (let path = image_path member_id name
      in if \<not> dir_exists isdir (dirname path) then (Inl FileNotFoundError, fs)
         else
           (case pil_jpeg uploaded_file of
              Some jpeg \<Rightarrow> (Inr path, fs(path \<mapsto> jpeg))
            | None \<Rightarrow>
                (case raw_bytes uploaded_file of
                   Some b \<Rightarrow> (Inr path, fs(path \<mapsto> b))
                 | None \<Rightarrow> (Inl TypeError, fs(path \<mapsto> [])))))"

section \<open>Register Member\<close>

record reg_form =
  id_input :: string
  name_input :: string
  gender :: string
  email :: string
  mobile :: string
  membership :: string
  fee :: int
  join_date :: pydate
  photo :: "uploaded option"

datatype reg_msg = PleaseFillFields | MemberIDAlreadyExists | MemberRegistered string

text \<open>
  The text of a field as it is read back from the file: pandas' default tokens for a
  missing value (the empty text is one of them) come back as the empty string.
\<close>

definition na_values :: "string list" where
  "na_values =
     [''#N/A'', ''#N/A N/A'', ''#NA'', ''-1.#IND'', ''-1.#QNAN'', ''-NaN'', ''-nan'',
      ''1.#IND'', ''1.#QNAN'', ''<NA>'', ''N/A'', ''NA'', ''NULL'', ''NaN'', ''None'',
      ''n/a'', ''nan'', ''null'']"

definition read_field :: "string \<Rightarrow> string" where
  "read_field s = (if s \<in> set na_values then [] else s)"

definition read_member :: "member \<Rightarrow> member" where
  "read_member m =
     \<lparr>ID = read_field (ID m), Name = read_field (Name m), Gender = read_field (Gender m),
      Email = read_field (Email m), Mobile = read_field (Mobile m),
      Membership = read_field (Membership m), Fee = read_field (Fee m),
      JoinDate = read_field (JoinDate m), ImagePath = read_field (ImagePath m)\<rparr>"

text \<open>\<^verbatim>\<open>save_members\<close> followed by the next \<^verbatim>\<open>load_members\<close>.\<close>

definition saved_members :: "member list \<Rightarrow> member list" where
  "saved_members members = map read_member members"

text \<open>
  The submit handler of the Register page. Its result is the message shown, or the
  exception that ends the run (of \<^verbatim>\<open>generate_member_id\<close> or of \<^verbatim>\<open>str(fee)\<close>), with
  the state it leaves. The new row carries the text typed into the form; the members table
  is saved with it, and read back on the next run.
\<close>

definition register_member ::
  "(string \<Rightarrow> bool) \<Rightarrow> reg_form \<Rightarrow> app_state \<Rightarrow> (py_error + reg_msg) \<times> app_state" where
  "register_member isdir f st =
     (case photo f of
        None \<Rightarrow> (Inr PleaseFillFields, st)
      | Some ph \<Rightarrow>
          if name_input f = [] \<or> email f = [] \<or> mobile f = [] then (Inr PleaseFillFields, st)
          else
            (let members = MEM_FILE st
             in case (if py_strip (id_input f) \<noteq> [] then Inr (py_strip (id_input f))
                      else generate_member_id members) of
                  Inl e \<Rightarrow> (Inl e, st)
                | Inr member_id \<Rightarrow>
                    if member_id \<in> set (map ID members) then (Inr MemberIDAlreadyExists, st)
                    else
                      (case save_member_image isdir ph member_id (name_input f) (disk st) of
                         (saved, fs') \<Rightarrow>
                           (let img_path = (case saved of Inl e \<Rightarrow> [] | Inr p \<Rightarrow> p)
                            in case py_str (fee f) of
                                 Inl e \<Rightarrow> (Inl e, st\<lparr>disk := fs'\<rparr>)
                               | Inr fee_str \<Rightarrow>
                                   (let new_row =
                                          \<lparr>ID = member_id, Name = name_input f,
                                           Gender = gender f, Email = email f,
                                           Mobile = mobile f, Membership = membership f,
                                           Fee = fee_str,
                                           JoinDate = strftime_Ymd (join_date f),
                                           ImagePath = img_path\<rparr>
                                    in (Inr (MemberRegistered member_id),
                                        st\<lparr>MEM_FILE := saved_members (members @ [new_row]),
                                           disk := fs'\<rparr>))))))"

section \<open>Delete Member\<close>

text \<open>
  \<^verbatim>\<open>load_deleted\<close>: a table without rows is recreated with its header and returned
  empty; any other table is returned as it is.
\<close>

definition load_deleted :: "deleted_member list \<Rightarrow> deleted_member list" where
  "load_deleted tbl = (if tbl = [] then [] else tbl)"

datatype del_msg = NoMembersAvailable | NothingSelected | MemberDeleted

text \<open>
  The delete button of the Update / Delete page, for the ID chosen in the select box: the
  page shows it only for a table with rows and a choice other than the placeholder.
  \<^verbatim>\<open>.iloc[0]\<close> raises IndexError when no row has the chosen ID. The update form that
  the page draws above the button is not part of this function.
\<close>

definition delete_member ::
  "string \<Rightarrow> datetime \<Rightarrow> app_state \<Rightarrow> py_error + del_msg \<times> app_state" where
  "delete_member sel_id now st =
     (let members = MEM_FILE st in
      if members = [] then Inr (NoMembersAvailable, st)
      else if sel_id = [] \<or> sel_id = ''--select--'' then Inr (NothingSelected, st)
      else
        (case filter (\<lambda>m. ID m = sel_id) members of
           [] \<Rightarrow> Inl IndexError
         | row # _ \<Rightarrow>
             (let deleted_tbl = load_deleted (DELETED_FILE st);
                  archived = member.extend row \<lparr>DeletedAt = str_datetime now\<rparr>;
                  deleted_tbl = deleted_tbl @ [archived];
                  fs = (if ImagePath row \<noteq> [] \<and> disk st (ImagePath row) \<noteq> None
                        then (disk st)(ImagePath row := None) else disk st);
                  members = filter (\<lambda>m. ID m \<noteq> sel_id) members;
                  attendance = filter (\<lambda>r. att_ID r \<noteq> sel_id) (ATT_FILE st)
              in Inr (MemberDeleted,
                      st\<lparr>DELETED_FILE := deleted_tbl, disk := fs,
                         MEM_FILE := members, ATT_FILE := attendance\<rparr>))))"

section \<open>Notions used in the statements\<close>

text \<open>
  A member is scanned with the matcher when its stored photo path is not empty and names
  an existing file. \<open>distance_of\<close> is the distance the matcher computes for it, and
  \<open>matcher_accepts\<close> says that this distance is at most the threshold or, when there is
  no distance, that the matcher's boolean verdict is true.
\<close>

definition readable :: "files \<Rightarrow> member \<Rightarrow> bool" where
  "readable fs m = (ImagePath m \<noteq> [] \<and> fs (ImagePath m) \<noteq> None)"

definition distance_of :: "verifier \<Rightarrow> string \<Rightarrow> member \<Rightarrow> pyfloat option" where
  "distance_of verify p m = fst (snd (try_verify_faces verify p (ImagePath m)))"

definition matcher_accepts :: "verifier \<Rightarrow> string \<Rightarrow> member \<Rightarrow> bool" where
  "matcher_accepts verify p m =
     (case try_verify_faces verify p (ImagePath m) of
        (match, distance, _) \<Rightarrow>
          (case distance of Some d \<Rightarrow> fle d DISTANCE_THRESHOLD | None \<Rightarrow> match))"

text \<open>
  The rows on which the loop calls the matcher, in order: it follows the control of
  \<open>scan_loop\<close> and ends where the loop breaks.
\<close>

fun scanned :: "verifier \<Rightarrow> files \<Rightarrow> string \<Rightarrow> scan_state \<Rightarrow> member list \<Rightarrow> member list" where
  "scanned verify fs p st [] = []"
| "scanned verify fs p st (row # rows) =
     (let called = (if ImagePath row = [] \<or> fs (ImagePath row) = None then [] else [row])
      in case scan_step verify fs p st row of
           Break st' \<Rightarrow> called
         | Continue st' \<Rightarrow> called @ scanned verify fs p st' rows)"

text \<open>The loop invariant while nothing has been accepted: the best distance, and the
  distance of the best candidate, stay above the threshold.\<close>

definition above :: "scan_state \<Rightarrow> bool" where
  "above st = ((\<exists>b. best_dist st = Fl b \<and> 6 / 10 < b) \<and>
     (case best st of None \<Rightarrow> True | Some (m, dopt) \<Rightarrow> \<exists>x. dopt = Some (Fl x) \<and> 6 / 10 < x))"

text \<open>The three messages of a page whose scan accepted nobody.\<close>

definition no_match_msg :: "att_msg \<Rightarrow> bool" where
  "no_match_msg msg =
     (msg = NoRegisteredMembersToMatch \<or> msg = NoMatchFound \<or>
      msg = FaceDidNotMatchSufficiently)"

text \<open>
  What it means that the loop state holds the minimum seen so far with its owner, after
  the rows \<open>seen\<close>: \<open>best_dist\<close> is a number below every numeric distance computed
  for a scanned row of \<open>seen\<close>; and either nothing went below the initial bound
  \<open>1e9\<close>, which \<open>best_dist\<close> still is with no candidate, or the candidate is a scanned
  row of \<open>seen\<close> whose distance is \<open>best_dist\<close>.
\<close>

definition tracks :: "verifier \<Rightarrow> files \<Rightarrow> string \<Rightarrow> member list \<Rightarrow> scan_state \<Rightarrow> bool" where
  "tracks verify fs p seen st =
     (\<exists>b. best_dist st = Fl b \<and>
          (\<forall>m\<in>set seen. readable fs m \<longrightarrow>
             (\<forall>y. distance_of verify p m = Some (Fl y) \<longrightarrow> b \<le> y)) \<and>
          (case best st of
             None \<Rightarrow> b = 1000000000
           | Some (m, dopt) \<Rightarrow>
               m \<in> set seen \<and> readable fs m \<and> distance_of verify p m = Some (Fl b) \<and>
               dopt = Some (Fl b) \<and> b < 1000000000))"

text \<open>
  The attendance records of a member ID on a date, the open ones among them (no ExitTime),
  and the table after an operation, which is saved only when the operation succeeds.
\<close>

definition records_for :: "string \<Rightarrow> string \<Rightarrow> attendance_record list \<Rightarrow> attendance_record list" where
  "records_for member_id date attendance =
     filter (\<lambda>r. att_ID r = member_id \<and> Date r = date) attendance"

definition is_open :: "string \<Rightarrow> string \<Rightarrow> attendance_record \<Rightarrow> bool" where
  "is_open member_id date r = (att_ID r = member_id \<and> Date r = date \<and> ExitTime r = [])"

definition table_after ::
  "attendance_record list \<Rightarrow> att_error + attendance_record list \<Rightarrow> attendance_record list" where
  "table_after attendance result = (case result of Inl e \<Rightarrow> attendance | Inr attendance' \<Rightarrow> attendance')"

text \<open>
  The attendance tables that the program can produce from the empty table: by marking
  entries and exits, and by the cascade of a member deletion.
\<close>

inductive ledger :: "attendance_record list \<Rightarrow> bool" where
  ledger_empty: "ledger []"
| ledger_entry: "ledger att \<Longrightarrow> mark_entry row now att = Inr att' \<Longrightarrow> ledger att'"
| ledger_exit: "ledger att \<Longrightarrow> mark_exit row now att = Inr att' \<Longrightarrow> ledger att'"
| ledger_delete: "ledger att \<Longrightarrow> ledger (filter (\<lambda>r. att_ID r \<noteq> sel_id) att)"



section \<open>Sample data\<close>

definition member_1 :: member where
  "member_1 = \<lparr>ID = ''1'', Name = ''Asha'', Gender = ''Female'', Email = ''asha@example.org'',
     Mobile = ''5550001'', Membership = ''Monthly'', Fee = ''500'', JoinDate = ''2024-01-01'',
     ImagePath = ''member_images/1_Asha.jpg''\<rparr>"

definition member_2 :: member where
  "member_2 = \<lparr>ID = ''2'', Name = ''Ravi'', Gender = ''Male'', Email = ''ravi@example.org'',
     Mobile = ''5550002'', Membership = ''Yearly'', Fee = ''5000'', JoinDate = ''2024-01-02'',
     ImagePath = ''member_images/2_Ravi.jpg''\<rparr>"

definition member_3 :: member where
  "member_3 = \<lparr>ID = ''3'', Name = ''Noor'', Gender = ''Other'', Email = ''noor@example.org'',
     Mobile = ''5550003'', Membership = ''Quarterly'', Fee = ''1400'', JoinDate = ''2024-01-03'',
     ImagePath = []\<rparr>"

text \<open>A service that puts member 1 at distance 0.8 and member 2 at distance 0.3, and
  raises on any other photo.\<close>

definition service_08_03 :: verifier where
  "service_08_03 img1 img2 =
     (if img2 = ''member_images/1_Asha.jpg''
      then Returns [''verified'' \<mapsto> PyBool True, ''distance'' \<mapsto> PyFloat (Fl (8 / 10))]
      else if img2 = ''member_images/2_Ravi.jpg''
      then Returns [''verified'' \<mapsto> PyBool False, ''distance'' \<mapsto> PyFloat (Fl (3 / 10))]
      else Raises ''Face could not be detected'')"

text \<open>A service that gives verdicts: for member 1 a true verdict and nothing else, for
  member 2 a false verdict with a cosine score of 0.5, for any other photo an empty
  result.\<close>

definition service_verdicts :: verifier where
  "service_verdicts img1 img2 =
     (if img2 = ''member_images/1_Asha.jpg''
      then Returns [''verified'' \<mapsto> PyBool True]
      else if img2 = ''member_images/2_Ravi.jpg''
      then Returns [''verified'' \<mapsto> PyBool False, ''distance'' \<mapsto> PyNone,
                    ''cosine'' \<mapsto> PyFloat (Fl (1 / 2))]
      else Returns Map.empty)"

definition photos_1_2 :: files where
  "photos_1_2 = [''member_images/1_Asha.jpg'' \<mapsto> ''jpeg of Asha'',
                 ''member_images/2_Ravi.jpg'' \<mapsto> ''jpeg of Ravi'']"

definition capture :: uploaded where
  "capture = \<lparr>pil_jpeg = Some ''jpeg of the capture'', raw_bytes = None\<rparr>"

definition noon :: datetime where
  "noon = \<lparr>year = 2024, month = 1, day = 1, hour = 12, minute = 0, second = 0, microsecond = 0\<rparr>"

definition state_1 :: app_state where
  "state_1 = \<lparr>MEM_FILE = [member_1], ATT_FILE = [], DELETED_FILE = [], disk = photos_1_2\<rparr>"

definition member_5 :: member where
  "member_5 = \<lparr>ID = ''5'', Name = ''Lena'', Gender = ''Female'', Email = ''lena@example.org'',
     Mobile = ''5550005'', Membership = ''Monthly'', Fee = ''500'', JoinDate = ''2023-12-01'',
     ImagePath = ''member_images/5_Lena.jpg''\<rparr>"

definition evening :: datetime where
  "evening = \<lparr>year = 2024, month = 1, day = 1, hour = 18, minute = 30, second = 5, microsecond = 250\<rparr>"

definition state_5 :: app_state where
  "state_5 = \<lparr>MEM_FILE = [member_1, member_5],
     ATT_FILE = [\<lparr>att_ID = ''5'', att_Name = ''Lena'', Date = ''2024-01-01'', EntryTime = ''12:00:00'',
                  ExitTime = [], Status = ''Present''\<rparr>,
                 \<lparr>att_ID = ''1'', att_Name = ''Asha'', Date = ''2024-01-01'', EntryTime = ''12:10:00'',
                  ExitTime = ''13:00:00'', Status = ''Exited''\<rparr>],
     DELETED_FILE = [],
     disk = [''member_images/5_Lena.jpg'' \<mapsto> ''jpeg of Lena'']\<rparr>"

text \<open>An installation with no member yet, and two forms with an explicit ID.\<close>

definition state_0 :: app_state where
  "state_0 = \<lparr>MEM_FILE = [], ATT_FILE = [], DELETED_FILE = [], disk = Map.empty\<rparr>"

definition form_NA :: reg_form where
  "form_NA = \<lparr>id_input = ''NA'', name_input = ''Nadia Ali'', gender = ''Female'',
     email = ''nadia@example.org'', mobile = ''5550021'', membership = ''Monthly'', fee = 500,
     join_date = \<lparr>year = 2024, month = 2, day = 2\<rparr>, photo = Some capture\<rparr>"

definition form_null :: reg_form where
  "form_null = \<lparr>id_input = ''null'', name_input = ''Omar'', gender = ''Male'',
     email = ''omar@example.org'', mobile = ''5550022'', membership = ''Yearly'', fee = 5000,
     join_date = \<lparr>year = 2024, month = 2, day = 3\<rparr>, photo = Some capture\<rparr>"

text \<open>The state after the form \<open>form_NA\<close> has been registered in \<open>state_0\<close>.\<close>

definition state_NA :: app_state where
  "state_NA =
     \<lparr>MEM_FILE = [\<lparr>ID = [], Name = ''Nadia Ali'', Gender = ''Female'',
                    Email = ''nadia@example.org'', Mobile = ''5550021'',
                    Membership = ''Monthly'', Fee = ''500'', JoinDate = ''2024-02-02'',
                    ImagePath = ''member_images/NA_Nadia_Ali.jpg''\<rparr>],
      ATT_FILE = [], DELETED_FILE = [],
      disk = [''member_images/NA_Nadia_Ali.jpg'' \<mapsto> ''jpeg of the capture'']\<rparr>"

text \<open>No directory but the image directory.\<close>

definition no_other_dir :: "string \<Rightarrow> bool" where
  "no_other_dir d = False"


section \<open>The matcher and the scan: lemmas\<close>

lemma find_distance_None_iff:
  "find_distance res ks = None \<longleftrightarrow> \<not> (\<exists>k\<in>set ks. \<exists>v. res k = Some v \<and> py_float v \<noteq> None)"
  by (induction ks) (auto split: option.splits)

lemma matcher_accepts_fst: "matcher_accepts verify p m = fst (try_verify_faces verify p (ImagePath m))"
  by (auto simp: matcher_accepts_def try_verify_faces_def Let_def split: service_result.splits option.splits)

lemma scan_step_skip:
  "\<not> readable fs m \<Longrightarrow> scan_step verify fs p st m = Continue st"
  by (auto simp: readable_def scan_step_def Let_def)

lemma scan_step_reject:
  "readable fs m \<Longrightarrow> \<not> matcher_accepts verify p m \<Longrightarrow>
   scan_step verify fs p st m =
     Continue (case distance_of verify p m of
                 None \<Rightarrow> st
               | Some d \<Rightarrow> if flt d (best_dist st)
                           then st\<lparr>best_dist := d, best := Some (m, Some d)\<rparr> else st)"
  by (auto simp: readable_def scan_step_def Let_def matcher_accepts_def distance_of_def
      split: prod.splits option.splits)

lemma scan_step_accept:
  "readable fs m \<Longrightarrow> matcher_accepts verify p m \<Longrightarrow>
   scan_step verify fs p st m =
     Break (case distance_of verify p m of
                 None \<Rightarrow> st\<lparr>best := Some (m, None)\<rparr>
               | Some d \<Rightarrow> if flt d (best_dist st)
                           then st\<lparr>best_dist := d, best := Some (m, Some d)\<rparr> else st)"
  by (auto simp: readable_def scan_step_def Let_def matcher_accepts_def distance_of_def
      split: prod.splits option.splits)

lemma scanned_accepts_iff:
  "(\<exists>m\<in>set (scanned verify fs p st ms). matcher_accepts verify p m) \<longleftrightarrow>
   (\<exists>m\<in>set ms. readable fs m \<and> matcher_accepts verify p m)"
proof (induction ms arbitrary: st)
  case Nil
  show ?case by simp
next
  case (Cons row rows)
  show ?case
  proof (cases "readable fs row")
    case False
    have step: "scan_step verify fs p st row = Continue st"
      using False by (rule scan_step_skip)
    have called: "ImagePath row = [] \<or> fs (ImagePath row) = None"
      using False by (simp add: readable_def)
    show ?thesis using Cons.IH [of st] False called by (auto simp: step)
  next
    case True
    have called: "\<not> (ImagePath row = [] \<or> fs (ImagePath row) = None)"
      using True by (simp add: readable_def)
    show ?thesis
    proof (cases "matcher_accepts verify p row")
      case acc: True
      obtain st' where step: "scan_step verify fs p st row = Break st'"
        using scan_step_accept [OF True acc] by blast
      show ?thesis using True acc called by (auto simp: step)
    next
      case rej: False
      obtain st' where step: "scan_step verify fs p st row = Continue st'"
        using scan_step_reject [OF True rej] by blast
      show ?thesis using Cons.IH [of st'] True rej called by (auto simp: step)
    qed
  qed
qed

lemma reject_distance:
  "\<not> matcher_accepts verify p m \<Longrightarrow> distance_of verify p m = Some d \<Longrightarrow> \<not> fle d DISTANCE_THRESHOLD"
  by (auto simp: matcher_accepts_def distance_of_def split: prod.splits)

lemma flt_Fl_D: "flt d (Fl b) \<Longrightarrow> \<exists>x. d = Fl x \<and> x < b"
  by (cases d) auto

lemma above_reject_step:
  assumes "above st" "readable fs m" "\<not> matcher_accepts verify p m"
  shows "\<exists>st'. scan_step verify fs p st m = Continue st' \<and> above st'"
proof (cases "distance_of verify p m")
  case None
  with assms show ?thesis by (simp add: scan_step_reject)
next
  case (Some d)
  have nd: "\<not> fle d DISTANCE_THRESHOLD" using assms(3) Some by (rule reject_distance)
  show ?thesis
  proof (cases "flt d (best_dist st)")
    case False
    with assms Some show ?thesis by (simp add: scan_step_reject)
  next
    case True
    from assms(1) obtain b where b: "best_dist st = Fl b" by (auto simp: above_def)
    from True b obtain x where x: "d = Fl x" by (auto dest: flt_Fl_D)
    from nd x have "6 / 10 < x" by (simp add: DISTANCE_THRESHOLD_def)
    with assms Some True x show ?thesis by (simp add: scan_step_reject above_def)
  qed
qed

lemma above_scan_loop:
  "above st \<Longrightarrow> \<forall>m\<in>set ms. readable fs m \<longrightarrow> \<not> matcher_accepts verify p m \<Longrightarrow>
   above (scan_loop verify fs p st ms)"
proof (induction ms arbitrary: st)
  case Nil
  then show ?case by simp
next
  case (Cons row rows)
  show ?case
  proof (cases "readable fs row")
    case False
    with Cons show ?thesis by (simp add: scan_step_skip)
  next
    case True
    with Cons.prems obtain st' where "scan_step verify fs p st row = Continue st'" "above st'"
      using above_reject_step [of st fs row verify p] by auto
    with Cons show ?thesis by simp
  qed
qed

lemma scan_loop_append_reject:
  "\<forall>m\<in>set pre. readable fs m \<longrightarrow> \<not> matcher_accepts verify p m \<Longrightarrow>
   scan_loop verify fs p st (pre @ rest) = scan_loop verify fs p (scan_loop verify fs p st pre) rest"
proof (induction pre arbitrary: st)
  case Nil
  then show ?case by simp
next
  case (Cons row rows)
  show ?case
  proof (cases "readable fs row")
    case False
    with Cons show ?thesis by (simp add: scan_step_skip)
  next
    case True
    with Cons show ?thesis by (simp add: scan_step_reject)
  qed
qed

lemma accept_step_best:
  assumes "above st" "readable fs m" "matcher_accepts verify p m"
  shows "\<exists>st'. scan_step verify fs p st m = Break st' \<and> best st' = Some (m, distance_of verify p m)"
proof (cases "distance_of verify p m")
  case None
  with assms show ?thesis by (simp add: scan_step_accept)
next
  case (Some d)
  from assms(3) Some have le: "fle d DISTANCE_THRESHOLD"
    by (auto simp: matcher_accepts_def distance_of_def split: prod.splits)
  from assms(1) obtain b where b: "best_dist st = Fl b" "6 / 10 < b" by (auto simp: above_def)
  from le obtain x where "d = Fl x" "x \<le> 6 / 10" by (cases d) (auto simp: DISTANCE_THRESHOLD_def)
  with b have "flt d (best_dist st)" by simp
  with assms Some show ?thesis by (simp add: scan_step_accept)
qed

lemma scan_first_accept:
  assumes "\<forall>x\<in>set pre. readable fs x \<longrightarrow> \<not> matcher_accepts verify p x"
    and "readable fs m" and "matcher_accepts verify p m"
  shows "best (scan_loop verify fs p scan_init (pre @ m # post)) = Some (m, distance_of verify p m)"
proof -
  have "above scan_init" by (simp add: above_def scan_init_def)
  then have "above (scan_loop verify fs p scan_init pre)" using assms(1) by (rule above_scan_loop)
  then obtain st' where "scan_step verify fs p (scan_loop verify fs p scan_init pre) m = Break st'"
    "best st' = Some (m, distance_of verify p m)"
    using accept_step_best assms(2,3) by blast
  then show ?thesis using assms(1) by (simp add: scan_loop_append_reject)
qed

lemma is_match_accepts:
  "matcher_accepts verify p m \<Longrightarrow> is_match (distance_of verify p m)"
  by (auto simp: matcher_accepts_def distance_of_def is_match_def split: prod.splits option.splits)

lemma resolve_first_accept:
  assumes "\<forall>x\<in>set pre. readable fs x \<longrightarrow> \<not> matcher_accepts verify p x"
    and "readable fs m" and "matcher_accepts verify p m"
  shows "resolve verify fs p (pre @ m # post) = Matched m (distance_of verify p m)"
  using scan_first_accept [OF assms] is_match_accepts [OF assms(3)]
  by (simp add: resolve_def)

lemma resolve_no_accept:
  assumes "\<forall>m\<in>set ms. readable fs m \<longrightarrow> \<not> matcher_accepts verify p m"
  shows "resolve verify fs p ms \<noteq> Matched row dst"
proof -
  have "above scan_init" by (simp add: above_def scan_init_def)
  then have "above (scan_loop verify fs p scan_init ms)" using assms by (rule above_scan_loop)
  then show ?thesis
    by (auto simp: resolve_def above_def is_match_def DISTANCE_THRESHOLD_def split: option.splits)
qed

lemma resolve_Matched_iff:
  "(\<exists>row dst. resolve verify fs p ms = Matched row dst) \<longleftrightarrow>
   (\<exists>m\<in>set ms. readable fs m \<and> matcher_accepts verify p m)"
proof
  assume "\<exists>row dst. resolve verify fs p ms = Matched row dst"
  then show "\<exists>m\<in>set ms. readable fs m \<and> matcher_accepts verify p m"
    using resolve_no_accept [of ms fs verify p] by blast
next
  assume "\<exists>m\<in>set ms. readable fs m \<and> matcher_accepts verify p m"
  then obtain pre m post where "ms = pre @ m # post" "readable fs m \<and> matcher_accepts verify p m"
    "\<forall>x\<in>set pre. \<not> (readable fs x \<and> matcher_accepts verify p x)"
    using split_list_first_prop [of ms "\<lambda>m. readable fs m \<and> matcher_accepts verify p m"] by blast
  then show "\<exists>row dst. resolve verify fs p ms = Matched row dst"
    using resolve_first_accept [of pre fs verify p m post] by auto
qed

section \<open>The face matcher\<close>

lemma find_distance_first:
  "res ''distance'' = Some v \<Longrightarrow> py_float v = Some x \<Longrightarrow>
   find_distance res distance_keys = Some x"
  by (simp add: distance_keys_def)

lemma find_distance_second:
  "res ''distance'' = None \<or> res ''distance'' = Some PyNone \<Longrightarrow>
   res ''cosine'' = Some v \<Longrightarrow> py_float v = Some x \<Longrightarrow>
   find_distance res distance_keys = Some x"
  by (auto simp: distance_keys_def)

lemma find_distance_third:
  "res ''distance'' = None \<or> res ''distance'' = Some PyNone \<Longrightarrow>
   res ''cosine'' = None \<or> res ''cosine'' = Some PyNone \<Longrightarrow>
   res ''euclidean'' = Some v \<Longrightarrow> py_float v = Some x \<Longrightarrow>
   find_distance res distance_keys = Some x"
  by (auto simp: distance_keys_def)

text \<open>
  C5. For every pair of image paths the matcher returns a triple. When the service raises,
  the triple is (false, no distance, the error). When the service returns a dictionary,
  the third component is that dictionary, and the distance is the number under the first
  of the keys "distance", "cosine", "euclidean" whose value converts to a number: a number
  under "distance" is taken; with "distance" absent or \<^verbatim>\<open>None\<close>, a number under "cosine";
  with both so, a number under "euclidean"; and there is no distance exactly when no key
  has such a value. With a distance \<open>x\<close> the verdict is \<open>x \<le> 0.6\<close> whatever the service
  says (false for NaN); with no distance the verdict is the service's own: the boolean
  under "verified", false when the key is absent or \<^verbatim>\<open>None\<close>, the truth value of a number.
\<close>

theorem try_verify_faces_contract:
  "(verify img1 img2 = Raises e \<longrightarrow>
      try_verify_faces verify img1 img2 = (False, None, ErrorDetail e)) \<and>
   (verify img1 img2 = Returns res \<longrightarrow>
      (\<exists>isMatch distance.
         try_verify_faces verify img1 img2 = (isMatch, distance, Res res) \<and>
         distance = find_distance res distance_keys \<and>
         (distance = None \<longleftrightarrow>
            \<not> (\<exists>k\<in>set distance_keys. \<exists>v. res k = Some v \<and> py_float v \<noteq> None)) \<and>
         (\<forall>x. res ''distance'' = Some (PyFloat x) \<longrightarrow> distance = Some x) \<and>
         (\<forall>x. (res ''distance'' = None \<or> res ''distance'' = Some PyNone) \<and>
              res ''cosine'' = Some (PyFloat x) \<longrightarrow> distance = Some x) \<and>
         (\<forall>x. (res ''distance'' = None \<or> res ''distance'' = Some PyNone) \<and>
              (res ''cosine'' = None \<or> res ''cosine'' = Some PyNone) \<and>
              res ''euclidean'' = Some (PyFloat x) \<longrightarrow> distance = Some x) \<and>
         (\<forall>x. distance = Some (Fl x) \<longrightarrow> isMatch = (x \<le> 6 / 10)) \<and>
         (distance = Some NaN \<longrightarrow> \<not> isMatch) \<and>
         (distance = None \<longrightarrow>
            (\<forall>b. res ''verified'' = Some (PyBool b) \<longrightarrow> isMatch = b) \<and>
            (res ''verified'' = None \<longrightarrow> \<not> isMatch) \<and>
            (res ''verified'' = Some PyNone \<longrightarrow> \<not> isMatch) \<and>
            (\<forall>x. res ''verified'' = Some (PyFloat (Fl x)) \<longrightarrow> isMatch = (x \<noteq> 0)) \<and>
            (res ''verified'' = Some (PyFloat NaN) \<longrightarrow> isMatch))))"
proof (intro conjI impI)
  assume "verify img1 img2 = Raises e"
  then show "try_verify_faces verify img1 img2 = (False, None, ErrorDetail e)"
    by (simp add: try_verify_faces_def)
next
  assume r: "verify img1 img2 = Returns res"
  define distance where "distance = find_distance res distance_keys"
  define isMatch where "isMatch = fst (try_verify_faces verify img1 img2)"
  have t: "try_verify_faces verify img1 img2 = (isMatch, distance, Res res)"
    using r by (simp add: isMatch_def distance_def try_verify_faces_def Let_def)
  have m: "isMatch = (case distance of Some d \<Rightarrow> fle d DISTANCE_THRESHOLD
                      | None \<Rightarrow> verified_of res)"
    using r by (simp add: isMatch_def distance_def try_verify_faces_def Let_def)
  have none_iff: "distance = None \<longleftrightarrow>
      \<not> (\<exists>k\<in>set distance_keys. \<exists>v. res k = Some v \<and> py_float v \<noteq> None)"
    unfolding distance_def by (rule find_distance_None_iff)
  have k1: "\<forall>x. res ''distance'' = Some (PyFloat x) \<longrightarrow> distance = Some x"
    unfolding distance_def by (auto intro: find_distance_first)
  have k2: "\<forall>x. (res ''distance'' = None \<or> res ''distance'' = Some PyNone) \<and>
              res ''cosine'' = Some (PyFloat x) \<longrightarrow> distance = Some x"
    unfolding distance_def by (auto intro: find_distance_second)
  have k3: "\<forall>x. (res ''distance'' = None \<or> res ''distance'' = Some PyNone) \<and>
              (res ''cosine'' = None \<or> res ''cosine'' = Some PyNone) \<and>
              res ''euclidean'' = Some (PyFloat x) \<longrightarrow> distance = Some x"
    unfolding distance_def by (auto intro: find_distance_third)
  have d1: "\<forall>x. distance = Some (Fl x) \<longrightarrow> isMatch = (x \<le> 6 / 10)"
    using m by (simp add: DISTANCE_THRESHOLD_def)
  have d2: "distance = Some NaN \<longrightarrow> \<not> isMatch"
    using m by simp
  have v: "distance = None \<longrightarrow>
            (\<forall>b. res ''verified'' = Some (PyBool b) \<longrightarrow> isMatch = b) \<and>
            (res ''verified'' = None \<longrightarrow> \<not> isMatch) \<and>
            (res ''verified'' = Some PyNone \<longrightarrow> \<not> isMatch) \<and>
            (\<forall>x. res ''verified'' = Some (PyFloat (Fl x)) \<longrightarrow> isMatch = (x \<noteq> 0)) \<and>
            (res ''verified'' = Some (PyFloat NaN) \<longrightarrow> isMatch)"
    using m by (simp add: verified_of_def)
  show "\<exists>isMatch distance.
         try_verify_faces verify img1 img2 = (isMatch, distance, Res res) \<and>
         distance = find_distance res distance_keys \<and>
         (distance = None \<longleftrightarrow>
            \<not> (\<exists>k\<in>set distance_keys. \<exists>v. res k = Some v \<and> py_float v \<noteq> None)) \<and>
         (\<forall>x. res ''distance'' = Some (PyFloat x) \<longrightarrow> distance = Some x) \<and>
         (\<forall>x. (res ''distance'' = None \<or> res ''distance'' = Some PyNone) \<and>
              res ''cosine'' = Some (PyFloat x) \<longrightarrow> distance = Some x) \<and>
         (\<forall>x. (res ''distance'' = None \<or> res ''distance'' = Some PyNone) \<and>
              (res ''cosine'' = None \<or> res ''cosine'' = Some PyNone) \<and>
              res ''euclidean'' = Some (PyFloat x) \<longrightarrow> distance = Some x) \<and>
         (\<forall>x. distance = Some (Fl x) \<longrightarrow> isMatch = (x \<le> 6 / 10)) \<and>
         (distance = Some NaN \<longrightarrow> \<not> isMatch) \<and>
         (distance = None \<longrightarrow>
            (\<forall>b. res ''verified'' = Some (PyBool b) \<longrightarrow> isMatch = b) \<and>
            (res ''verified'' = None \<longrightarrow> \<not> isMatch) \<and>
            (res ''verified'' = Some PyNone \<longrightarrow> \<not> isMatch) \<and>
            (\<forall>x. res ''verified'' = Some (PyFloat (Fl x)) \<longrightarrow> isMatch = (x \<noteq> 0)) \<and>
            (res ''verified'' = Some (PyFloat NaN) \<longrightarrow> isMatch))"
    by (rule exI [of _ isMatch], rule exI [of _ distance], intro conjI)
       (fact t distance_def none_iff k1 k2 k3 d1 d2 v)+
qed

theorem try_verify_faces_contract_witness:
  "try_verify_faces service_verdicts ''temp_entry.jpg'' ''member_images/1_Asha.jpg'' =
     (True, None, Res [''verified'' \<mapsto> PyBool True]) \<and>
   try_verify_faces service_verdicts ''temp_entry.jpg'' ''member_images/2_Ravi.jpg'' =
     (True, Some (Fl (1 / 2)),
      Res [''verified'' \<mapsto> PyBool False, ''distance'' \<mapsto> PyNone,
           ''cosine'' \<mapsto> PyFloat (Fl (1 / 2))]) \<and>
   try_verify_faces service_verdicts ''temp_entry.jpg'' ''nobody.jpg'' =
     (False, None, Res Map.empty) \<and>
   try_verify_faces service_08_03 ''temp_entry.jpg'' ''member_images/1_Asha.jpg'' =
     (False, Some (Fl (8 / 10)),
      Res [''verified'' \<mapsto> PyBool True, ''distance'' \<mapsto> PyFloat (Fl (8 / 10))]) \<and>
   try_verify_faces service_08_03 ''temp_entry.jpg'' ''nobody.jpg'' =
     (False, None, ErrorDetail ''Face could not be detected'')"
proof -
  have v1: "service_verdicts ''temp_entry.jpg'' ''member_images/1_Asha.jpg'' =
      Returns [''verified'' \<mapsto> PyBool True]"
    by (simp add: service_verdicts_def)
  have v2: "service_verdicts ''temp_entry.jpg'' ''member_images/2_Ravi.jpg'' =
      Returns [''verified'' \<mapsto> PyBool False, ''distance'' \<mapsto> PyNone,
           ''cosine'' \<mapsto> PyFloat (Fl (1 / 2))]"
    by (simp add: service_verdicts_def)
  have v3: "service_verdicts ''temp_entry.jpg'' ''nobody.jpg'' = Returns Map.empty"
    by (simp add: service_verdicts_def)
  have s1: "service_08_03 ''temp_entry.jpg'' ''member_images/1_Asha.jpg'' =
      Returns [''verified'' \<mapsto> PyBool True, ''distance'' \<mapsto> PyFloat (Fl (8 / 10))]"
    by (simp add: service_08_03_def)
  have s2: "service_08_03 ''temp_entry.jpg'' ''nobody.jpg'' = Raises ''Face could not be detected''"
    by (simp add: service_08_03_def)
  show ?thesis
    using try_verify_faces_contract [of service_verdicts "''temp_entry.jpg''"
        "''member_images/1_Asha.jpg''" _ "[''verified'' \<mapsto> PyBool True]"]
    by (simp add: try_verify_faces_def v1 v2 v3 s1 s2 distance_keys_def verified_of_def
        DISTANCE_THRESHOLD_def Let_def)
qed

section \<open>Identity resolution\<close>

text \<open>
  C7. When the members table is empty, or no member has a stored photo path that is not
  empty and names an existing file, the resolution is "no match" for every probe and every
  behaviour of the service.
\<close>

theorem resolve_without_readable_photo:
  assumes "ms = [] \<or> (\<forall>m\<in>set ms. ImagePath m = [] \<or> fs (ImagePath m) = None)"
  shows "resolve verify fs p ms = (if ms = [] then NoRegisteredMembers else NoMatchingMember) \<and>
         (\<forall>row dst. resolve verify fs p ms \<noteq> Matched row dst)"
proof -
  have skip: "\<forall>m\<in>set ms. \<not> readable fs m"
    using assms by (auto simp: readable_def)
  have "scan_loop verify fs p st ms = st" for st
    using skip by (induction ms arbitrary: st) (simp_all add: scan_step_skip)
  then show ?thesis by (simp add: resolve_def scan_init_def)
qed

theorem resolve_without_readable_photo_witness:
  "ImagePath member_3 = [] \<and>
   (Map.empty :: files) (ImagePath member_2) = None \<and>
   resolve service_08_03 Map.empty ''temp_entry.jpg'' [member_3, member_2] = NoMatchingMember \<and>
   resolve service_08_03 photos_1_2 ''temp_entry.jpg'' [] = NoRegisteredMembers"
  using resolve_without_readable_photo [of "[member_3, member_2]" Map.empty service_08_03 "''temp_entry.jpg''"]
    resolve_without_readable_photo [of "[]" photos_1_2 service_08_03 "''temp_entry.jpg''"]
  by (simp add: member_3_def)

lemma att_unchanged_entry:
  assumes "pil_jpeg u = Some jpeg"
    and "\<forall>row dst. resolve verify ((disk st)(''temp_entry.jpg'' \<mapsto> jpeg)) ''temp_entry.jpg'' (MEM_FILE st) \<noteq> Matched row dst"
  shows "fst (attendance_entry verify (Some u) now st) \<in> {NoRegisteredMembersToMatch, NoMatchFound, FaceDidNotMatchSufficiently} \<and>
         ATT_FILE (snd (attendance_entry verify (Some u) now st)) = ATT_FILE st"
  using assms by (auto simp: attendance_entry_def Let_def split: resolution.splits)

lemma att_unchanged_exit:
  assumes "pil_jpeg u = Some jpeg"
    and "\<forall>row dst. resolve verify ((disk st)(''temp_exit.jpg'' \<mapsto> jpeg)) ''temp_exit.jpg'' (MEM_FILE st) \<noteq> Matched row dst"
  shows "fst (attendance_exit verify (Some u) now st) \<in> {NoRegisteredMembersToMatch, NoMatchFound, FaceDidNotMatchSufficiently} \<and>
         ATT_FILE (snd (attendance_exit verify (Some u) now st)) = ATT_FILE st"
  using assms by (auto simp: attendance_exit_def Let_def split: resolution.splits)

text \<open>
  C1. The resolution returns a member exactly when the matcher accepts one of the scanned
  members (its distance is at most 0.6 or, without a distance, its verdict is true);
  this is the same as some member with a readable photo being accepted. When no scanned
  member is accepted, the Entry page and the Exit page report no match and leave the
  attendance table as it was.
\<close>

theorem identity_resolution_match_iff:
  "((\<exists>row dst. resolve verify fs p ms = Matched row dst) \<longleftrightarrow>
      (\<exists>m\<in>set (scanned verify fs p scan_init ms). matcher_accepts verify p m)) \<and>
   ((\<exists>row dst. resolve verify fs p ms = Matched row dst) \<longleftrightarrow>
      (\<exists>m\<in>set ms. readable fs m \<and> matcher_accepts verify p m)) \<and>
   (pil_jpeg u = Some jpeg \<and>
    \<not> (\<exists>m\<in>set (scanned verify ((disk st)(''temp_entry.jpg'' \<mapsto> jpeg)) ''temp_entry.jpg''
                   scan_init (MEM_FILE st)). matcher_accepts verify ''temp_entry.jpg'' m) \<longrightarrow>
      no_match_msg (fst (attendance_entry verify (Some u) now st)) \<and>
      ATT_FILE (snd (attendance_entry verify (Some u) now st)) = ATT_FILE st) \<and>
   (pil_jpeg u = Some jpeg \<and>
    \<not> (\<exists>m\<in>set (scanned verify ((disk st)(''temp_exit.jpg'' \<mapsto> jpeg)) ''temp_exit.jpg''
                   scan_init (MEM_FILE st)). matcher_accepts verify ''temp_exit.jpg'' m) \<longrightarrow>
      no_match_msg (fst (attendance_exit verify (Some u) now st)) \<and>
      ATT_FILE (snd (attendance_exit verify (Some u) now st)) = ATT_FILE st)"
proof -
  have iff: "(\<exists>row dst. resolve verify fs p ms = Matched row dst) \<longleftrightarrow>
      (\<exists>m\<in>set (scanned verify fs p scan_init ms). matcher_accepts verify p m)" for fs p ms
    by (simp only: resolve_Matched_iff scanned_accepts_iff)
  show ?thesis
    using att_unchanged_entry [of u jpeg verify st now] att_unchanged_exit [of u jpeg verify st now]
    by (simp only: iff [symmetric] resolve_Matched_iff [symmetric] no_match_msg_def) auto
qed

theorem identity_resolution_match_iff_witness:
  "pil_jpeg capture = Some ''jpeg of the capture'' \<and>
   \<not> (\<exists>m\<in>set (scanned service_08_03 ((disk state_1)(''temp_entry.jpg'' \<mapsto> ''jpeg of the capture''))
                  ''temp_entry.jpg'' scan_init (MEM_FILE state_1)).
         matcher_accepts service_08_03 ''temp_entry.jpg'' m) \<and>
   fst (attendance_entry service_08_03 (Some capture) noon state_1) = FaceDidNotMatchSufficiently \<and>
   ATT_FILE (snd (attendance_entry service_08_03 (Some capture) noon state_1)) = []"
  using identity_resolution_match_iff [of service_08_03 _ _ _ capture "''jpeg of the capture''" state_1 noon]
  by (simp add: capture_def state_1_def member_1_def photos_1_2_def service_08_03_def
      scan_init_def scan_step_def try_verify_faces_def distance_keys_def verified_of_def
      DISTANCE_THRESHOLD_def matcher_accepts_def attendance_entry_def resolve_def is_match_def Let_def)

lemma scan_step_continues:
  assumes "readable fs m \<longrightarrow> \<not> matcher_accepts verify p m"
  shows "\<exists>st'. scan_step verify fs p st m = Continue st'"
  using assms scan_step_skip [of fs m verify p st] scan_step_reject [of fs m verify p st]
  by (cases "readable fs m") auto

lemma scanned_Cons:
  "scanned verify fs p st (row # rows) =
     (case scan_step verify fs p st row of
        Break st' \<Rightarrow> filter (readable fs) [row]
      | Continue st' \<Rightarrow> filter (readable fs) [row] @ scanned verify fs p st' rows)"
  by (cases "scan_step verify fs p st row") (simp_all add: readable_def)

lemma scanned_reject:
  "\<forall>m\<in>set ms. readable fs m \<longrightarrow> \<not> matcher_accepts verify p m \<Longrightarrow>
   scanned verify fs p st (ms @ rest) =
     filter (readable fs) ms @ scanned verify fs p (scan_loop verify fs p st ms) rest"
proof (induction ms arbitrary: st)
  case Nil
  show ?case by simp
next
  case (Cons row rows)
  from Cons.prems obtain st' where step: "scan_step verify fs p st row = Continue st'"
    using scan_step_continues [of fs row verify p st] by auto
  have "scanned verify fs p st' (rows @ rest) =
     filter (readable fs) rows @ scanned verify fs p (scan_loop verify fs p st' rows) rest"
    using Cons.prems by (intro Cons.IH) simp
  then show ?case by (simp add: scanned_Cons step del: scanned.simps)
qed

lemma scanned_accept_head:
  assumes "readable fs m" "matcher_accepts verify p m"
  shows "scanned verify fs p st (m # post) = [m]"
proof -
  obtain st' where "scan_step verify fs p st m = Break st'"
    using scan_step_accept [OF assms] by blast
  then show ?thesis using assms(1) by (simp add: scanned_Cons del: scanned.simps)
qed

lemma tracks_step:
  assumes "tracks verify fs p seen st" "readable fs m \<longrightarrow> \<not> matcher_accepts verify p m"
  shows "\<exists>st'. scan_step verify fs p st m = Continue st' \<and> tracks verify fs p (seen @ [m]) st'"
proof (cases "readable fs m")
  case False
  with assms(1) have "tracks verify fs p (seen @ [m]) st"
    by (auto simp: tracks_def split: option.splits)
  with False show ?thesis by (simp add: scan_step_skip)
next
  case True
  with assms(2) have rej: "\<not> matcher_accepts verify p m" by simp
  from assms(1) obtain b where b: "best_dist st = Fl b"
    and lb: "\<forall>x\<in>set seen. readable fs x \<longrightarrow> (\<forall>y. distance_of verify p x = Some (Fl y) \<longrightarrow> b \<le> y)"
    and ow: "case best st of None \<Rightarrow> b = 1000000000
             | Some (x, dopt) \<Rightarrow> x \<in> set seen \<and> readable fs x \<and> distance_of verify p x = Some (Fl b) \<and>
                 dopt = Some (Fl b) \<and> b < 1000000000"
    by (auto simp: tracks_def)
  show ?thesis
  proof (cases "distance_of verify p m")
    case None
    have "tracks verify fs p (seen @ [m]) st"
      using b lb ow None by (auto simp: tracks_def split: option.splits)
    with True rej None show ?thesis by (simp add: scan_step_reject)
  next
    case (Some d)
    show ?thesis
    proof (cases d)
      case NaN
      have "tracks verify fs p (seen @ [m]) st"
        using b lb ow Some NaN by (auto simp: tracks_def split: option.splits)
      with True rej Some NaN show ?thesis by (simp add: scan_step_reject)
    next
      case (Fl x)
      show ?thesis
      proof (cases "x < b")
        case False
        have "tracks verify fs p (seen @ [m]) st"
          using b lb ow Some Fl False by (auto simp: tracks_def split: option.splits)
        with True rej Some Fl b False show ?thesis by (simp add: scan_step_reject)
      next
        case less: True
        have xb: "x < 1000000000"
          using less ow by (cases "best st") auto
        have "tracks verify fs p (seen @ [m]) (st\<lparr>best_dist := d, best := Some (m, Some d)\<rparr>)"
          using b lb Some Fl less xb True by (auto simp: tracks_def)
        with True rej Some Fl b less show ?thesis by (simp add: scan_step_reject)
      qed
    qed
  qed
qed

lemma tracks_scan_loop:
  "tracks verify fs p seen st \<Longrightarrow>
   \<forall>m\<in>set ms. readable fs m \<longrightarrow> \<not> matcher_accepts verify p m \<Longrightarrow>
   tracks verify fs p (seen @ ms) (scan_loop verify fs p st ms)"
proof (induction ms arbitrary: seen st)
  case Nil
  then show ?case by simp
next
  case (Cons row rows)
  from Cons.prems obtain st' where step: "scan_step verify fs p st row = Continue st'"
    and tr: "tracks verify fs p (seen @ [row]) st'"
    using tracks_step [of verify fs p seen st row] by auto
  have "tracks verify fs p ((seen @ [row]) @ rows) (scan_loop verify fs p st' rows)"
    using tr Cons.prems by (intro Cons.IH) simp_all
  then show ?case by (simp add: step)
qed

lemma tracks_init: "tracks verify fs p [] scan_init"
  by (simp add: tracks_def scan_init_def)

lemma resolve_Matched_is_match:
  "resolve verify fs p ms = Matched row dst \<Longrightarrow> is_match dst"
  by (auto simp: resolve_def split: if_splits option.splits)

text \<open>
  C2. The scan goes through the members in table order and calls the matcher on those with
  a readable photo. At the first of them that the matcher accepts (distance at most the
  threshold, or a true verdict without a distance) it stops: no later row is scanned, and
  this member is the result, with its distance. Up to there, and over the whole table when
  nobody is accepted, the state holds the minimum distance seen (below the initial
  \<open>1e9\<close>) with its owner, and then no member is returned. A member returned with a
  distance always has a distance of at most the threshold. With member "1" at distance 0.8
  and member "2" at distance 0.3, in this order, both are scanned, member "1" is the best
  after the first round, and member "2" is returned.
\<close>

theorem scan_order_and_early_exit:
  "((\<forall>x\<in>set pre. readable fs x \<longrightarrow> \<not> matcher_accepts verify p x) \<and>
     readable fs m \<and> matcher_accepts verify p m \<longrightarrow>
       scanned verify fs p scan_init (pre @ m # post) = filter (readable fs) pre @ [m] \<and>
       tracks verify fs p pre (scan_loop verify fs p scan_init pre) \<and>
       resolve verify fs p (pre @ m # post) = Matched m (distance_of verify p m)) \<and>
   ((\<forall>x\<in>set ms. readable fs x \<longrightarrow> \<not> matcher_accepts verify p x) \<longrightarrow>
       scanned verify fs p scan_init ms = filter (readable fs) ms \<and>
       tracks verify fs p ms (scan_loop verify fs p scan_init ms) \<and>
       (\<forall>row dst. resolve verify fs p ms \<noteq> Matched row dst)) \<and>
   (resolve verify fs p ms = Matched row (Some d) \<longrightarrow> fle d DISTANCE_THRESHOLD) \<and>
   scanned service_08_03 photos_1_2 ''temp_entry.jpg'' scan_init [member_1, member_2] =
     [member_1, member_2] \<and>
   scan_loop service_08_03 photos_1_2 ''temp_entry.jpg'' scan_init [member_1] =
     \<lparr>best = Some (member_1, Some (Fl (8 / 10))), best_dist = Fl (8 / 10)\<rparr> \<and>
   resolve service_08_03 photos_1_2 ''temp_entry.jpg'' [member_1, member_2] =
     Matched member_2 (Some (Fl (3 / 10))) \<and>
   ID member_2 = ''2''"
proof (intro conjI impI allI)
  assume a: "(\<forall>x\<in>set pre. readable fs x \<longrightarrow> \<not> matcher_accepts verify p x) \<and>
     readable fs m \<and> matcher_accepts verify p m"
  show "scanned verify fs p scan_init (pre @ m # post) = filter (readable fs) pre @ [m]"
    using a scanned_reject [of pre fs verify p scan_init "m # post"]
      scanned_accept_head [of fs m verify p "scan_loop verify fs p scan_init pre" post]
    by simp
  show "tracks verify fs p pre (scan_loop verify fs p scan_init pre)"
    using tracks_scan_loop [OF tracks_init, of pre fs verify p] a by simp
  show "resolve verify fs p (pre @ m # post) = Matched m (distance_of verify p m)"
    using a by (simp add: resolve_first_accept)
next
  assume a: "\<forall>x\<in>set ms. readable fs x \<longrightarrow> \<not> matcher_accepts verify p x"
  show "scanned verify fs p scan_init ms = filter (readable fs) ms"
    using scanned_reject [OF a, of scan_init "[]"] by simp
  show "tracks verify fs p ms (scan_loop verify fs p scan_init ms)"
    using tracks_scan_loop [OF tracks_init a] by simp
  show "resolve verify fs p ms \<noteq> Matched row dst" for row dst
    using a by (rule resolve_no_accept)
next
  assume "resolve verify fs p ms = Matched row (Some d)"
  then show "fle d DISTANCE_THRESHOLD"
    by (auto dest: resolve_Matched_is_match simp: is_match_def)
next
  show "scanned service_08_03 photos_1_2 ''temp_entry.jpg'' scan_init [member_1, member_2] =
     [member_1, member_2]"
    by (simp add: member_1_def member_2_def photos_1_2_def service_08_03_def
      scan_init_def scan_step_def try_verify_faces_def distance_keys_def verified_of_def
      DISTANCE_THRESHOLD_def Let_def)
  show "scan_loop service_08_03 photos_1_2 ''temp_entry.jpg'' scan_init [member_1] =
     \<lparr>best = Some (member_1, Some (Fl (8 / 10))), best_dist = Fl (8 / 10)\<rparr>"
    by (simp add: member_1_def photos_1_2_def service_08_03_def
      scan_init_def scan_step_def try_verify_faces_def distance_keys_def verified_of_def
      DISTANCE_THRESHOLD_def Let_def)
  show "resolve service_08_03 photos_1_2 ''temp_entry.jpg'' [member_1, member_2] =
     Matched member_2 (Some (Fl (3 / 10)))"
    by (simp add: member_1_def member_2_def photos_1_2_def service_08_03_def resolve_def is_match_def
      scan_init_def scan_step_def try_verify_faces_def distance_keys_def verified_of_def
      DISTANCE_THRESHOLD_def Let_def)
  show "ID member_2 = ''2''" by (simp add: member_2_def)
qed

theorem scan_order_and_early_exit_witness:
  "\<not> readable photos_1_2 member_3 \<and>
   readable photos_1_2 member_1 \<and> \<not> matcher_accepts service_08_03 ''temp_exit.jpg'' member_1 \<and>
   readable photos_1_2 member_2 \<and> matcher_accepts service_08_03 ''temp_exit.jpg'' member_2 \<and>
   scanned service_08_03 photos_1_2 ''temp_exit.jpg'' scan_init
     [member_3, member_1, member_2, member_1] = [member_1, member_2] \<and>
   resolve service_08_03 photos_1_2 ''temp_exit.jpg'' [member_3, member_1, member_2, member_1] =
     Matched member_2 (Some (Fl (3 / 10))) \<and>
   resolve service_08_03 photos_1_2 ''temp_exit.jpg'' [member_3, member_1] = NotSufficient"
  using scan_order_and_early_exit [of "[member_3, member_1]" photos_1_2 service_08_03
      "''temp_exit.jpg''" member_2 "[member_1]" "[member_3, member_1]"]
  by (simp add: member_1_def member_2_def member_3_def photos_1_2_def service_08_03_def
      readable_def matcher_accepts_def distance_of_def resolve_def is_match_def
      scan_init_def scan_step_def try_verify_faces_def distance_keys_def verified_of_def
      DISTANCE_THRESHOLD_def Let_def)

section \<open>Attendance ledger: lemmas\<close>

lemma filter_upt_first:
  "filter Q [m ..< n] = i # js \<Longrightarrow> m \<le> i \<and> i < n \<and> Q i \<and> (\<forall>j. m \<le> j \<and> j < i \<longrightarrow> \<not> Q j)"
proof (induction "n - m" arbitrary: m)
  case 0
  then show ?case by simp
next
  case (Suc k)
  then have lt: "m < n" by simp
  then have upt: "[m ..< n] = m # [Suc m ..< n]" by (rule upt_conv_Cons)
  show ?case
  proof (cases "Q m")
    case True
    with Suc.prems upt show ?thesis using lt by auto
  next
    case False
    with Suc.prems upt have "filter Q [Suc m ..< n] = i # js" by simp
    moreover have "k = n - Suc m" using Suc.hyps(2) by simp
    ultimately have "Suc m \<le> i \<and> i < n \<and> Q i \<and> (\<forall>j. Suc m \<le> j \<and> j < i \<longrightarrow> \<not> Q j)"
      by (rule Suc.hyps(1) [rotated])
    with False show ?thesis
      by (metis Suc_leD le_neq_implies_less Suc_leI)
  qed
qed

lemma mark_entry_exists:
  "records_for (ID row) (strftime_Ymd now) att \<noteq> [] \<Longrightarrow> mark_entry row now att = Inl AlreadyMarked"
  by (simp add: mark_entry_def records_for_def Let_def)

lemma mark_entry_new:
  "records_for (ID row) (strftime_Ymd now) att = [] \<Longrightarrow>
   mark_entry row now att =
     Inr (att @ [\<lparr>att_ID = ID row, att_Name = Name row, Date = strftime_Ymd now,
                  EntryTime = strftime_HMS now, ExitTime = [], Status = ''Present''\<rparr>])"
  by (simp add: mark_entry_def records_for_def Let_def)

lemma mark_exit_none:
  "\<forall>r\<in>set att. \<not> is_open (ID row) (strftime_Ymd now) r \<Longrightarrow> mark_exit row now att = Inl NoOpenEntry"
proof -
  assume a: "\<forall>r\<in>set att. \<not> is_open (ID row) (strftime_Ymd now) r"
  have "filter (\<lambda>i. att_ID (att ! i) = ID row \<and> Date (att ! i) = strftime_Ymd now
                                    \<and> ExitTime (att ! i) = []) [0 ..< length att] = []"
    using a by (auto simp: filter_empty_conv is_open_def)
  then show ?thesis by (simp add: mark_exit_def Let_def)
qed

lemma mark_exit_some:
  assumes "\<exists>r\<in>set att. is_open (ID row) (strftime_Ymd now) r"
  shows "\<exists>idx. idx < length att \<and> is_open (ID row) (strftime_Ymd now) (att ! idx) \<and>
           (\<forall>j<idx. \<not> is_open (ID row) (strftime_Ymd now) (att ! j)) \<and>
           mark_exit row now att =
             Inr (att[idx := (att ! idx)\<lparr>ExitTime := strftime_HMS now, Status := ''Exited''\<rparr>])"
proof -
  let ?Q = "\<lambda>i. att_ID (att ! i) = ID row \<and> Date (att ! i) = strftime_Ymd now \<and> ExitTime (att ! i) = []"
  from assms obtain k where "k < length att" "?Q k"
    by (auto simp: in_set_conv_nth is_open_def)
  then have "filter ?Q [0 ..< length att] \<noteq> []"
    by (auto simp: filter_empty_conv)
  then obtain idx rest where f: "filter ?Q [0 ..< length att] = idx # rest"
    by (cases "filter ?Q [0 ..< length att]") auto
  from filter_upt_first [OF f]
  have "idx < length att" "?Q idx" "\<forall>j<idx. \<not> ?Q j" by auto
  moreover have "mark_exit row now att =
             Inr (att[idx := (att ! idx)\<lparr>ExitTime := strftime_HMS now, Status := ''Exited''\<rparr>])"
    using f by (simp add: mark_exit_def Let_def)
  ultimately show ?thesis by (auto simp: is_open_def)
qed


lemma length_filter_update:
  "i < length xs \<Longrightarrow> P y = P (xs ! i) \<Longrightarrow> length (filter P (xs[i := y])) = length (filter P xs)"
  by (induction xs arbitrary: i) (auto simp: nth_Cons split: nat.splits)

lemma records_for_append:
  "records_for a d (att @ [r]) =
     records_for a d att @ (if att_ID r = a \<and> Date r = d then [r] else [])"
  by (simp add: records_for_def)

lemma mark_entry_Inr_D:
  assumes "mark_entry row now att = Inr att'"
  shows "records_for (ID row) (strftime_Ymd now) att = [] \<and>
         att' = att @ [\<lparr>att_ID = ID row, att_Name = Name row, Date = strftime_Ymd now,
                  EntryTime = strftime_HMS now, ExitTime = [], Status = ''Present''\<rparr>]"
  using assms by (auto simp: mark_entry_def records_for_def Let_def split: if_splits)

lemma mark_entry_unique:
  assumes "mark_entry row now att = Inr att'" "length (records_for a d att) \<le> 1"
  shows "length (records_for a d att') \<le> 1"
proof (cases "a = ID row \<and> d = strftime_Ymd now")
  case True
  with mark_entry_Inr_D [OF assms(1)] show ?thesis by (simp add: records_for_append)
next
  case False
  with mark_entry_Inr_D [OF assms(1)] assms(2) show ?thesis
    by (auto simp: records_for_append)
qed

lemma mark_exit_Inr_D:
  assumes "mark_exit row now att = Inr att'"
  shows "\<exists>idx. idx < length att \<and> is_open (ID row) (strftime_Ymd now) (att ! idx) \<and>
           (\<forall>j<idx. \<not> is_open (ID row) (strftime_Ymd now) (att ! j)) \<and>
           att' = att[idx := (att ! idx)\<lparr>ExitTime := strftime_HMS now, Status := ''Exited''\<rparr>]"
proof (cases "\<exists>r\<in>set att. is_open (ID row) (strftime_Ymd now) r")
  case True
  from mark_exit_some [OF True] assms show ?thesis by auto
next
  case False
  then have "mark_exit row now att = Inl NoOpenEntry" by (intro mark_exit_none) simp
  with assms show ?thesis by simp
qed

lemma mark_exit_unique:
  assumes "mark_exit row now att = Inr att'"
  shows "length (records_for a d att') = length (records_for a d att)"
proof -
  from mark_exit_Inr_D [OF assms] obtain idx where "idx < length att"
    "att' = att[idx := (att ! idx)\<lparr>ExitTime := strftime_HMS now, Status := ''Exited''\<rparr>]"
    by blast
  then show ?thesis
    unfolding records_for_def by (simp add: length_filter_update)
qed

lemma ledger_unique: "ledger att \<Longrightarrow> length (records_for a d att) \<le> 1"
proof (induction rule: ledger.induct)
  case ledger_empty
  show ?case by (simp add: records_for_def)
next
  case (ledger_entry att row now att')
  from ledger_entry.hyps(2) ledger_entry.IH show ?case by (rule mark_entry_unique)
next
  case (ledger_exit att row now att')
  then show ?case by (simp add: mark_exit_unique)
next
  case (ledger_delete att sel_id)
  have "records_for a d (filter (\<lambda>r. att_ID r \<noteq> sel_id) att) =
        filter (\<lambda>r. att_ID r \<noteq> sel_id) (records_for a d att)"
    by (auto simp: records_for_def intro: filter_cong)
  then have "length (records_for a d (filter (\<lambda>r. att_ID r \<noteq> sel_id) att)) \<le> length (records_for a d att)"
    by simp
  with ledger_delete.IH show ?case by simp
qed

lemma open_le_records:
  "length (filter (is_open a d) att) \<le> length (records_for a d att)"
proof -
  have "filter (is_open a d) att = filter (is_open a d) (records_for a d att)"
    by (auto simp: records_for_def is_open_def intro: filter_cong)
  then show ?thesis by (simp del: filter_filter)
qed

lemma strftime_HMS_nonempty: "strftime_HMS now \<noteq> []"
  by (simp add: strftime_HMS_def)

lemma entry_twice:
  assumes "length (records_for (ID row) (strftime_Ymd now) att) \<le> 1"
    and "ID row' = ID row" and "strftime_Ymd now' = strftime_Ymd now"
  shows "let att1 = table_after att (mark_entry row now att) in
           mark_entry row' now' att1 = Inl AlreadyMarked \<and>
           table_after att1 (mark_entry row' now' att1) = att1 \<and>
           length (records_for (ID row) (strftime_Ymd now) att1) = 1"
proof (cases "records_for (ID row) (strftime_Ymd now) att = []")
  case True
  have "records_for (ID row') (strftime_Ymd now') (table_after att (mark_entry row now att)) \<noteq> []"
    using True assms(2,3) by (simp add: mark_entry_new table_after_def records_for_append)
  then have "mark_entry row' now' (table_after att (mark_entry row now att)) = Inl AlreadyMarked"
    by (rule mark_entry_exists)
  then show ?thesis using True
    by (simp add: Let_def) (simp add: mark_entry_new table_after_def records_for_append)
next
  case False
  then have one: "length (records_for (ID row) (strftime_Ymd now) att) = 1"
    using assms(1) by (cases "records_for (ID row) (strftime_Ymd now) att") auto
  have "mark_entry row now att = Inl AlreadyMarked" using False by (rule mark_entry_exists)
  moreover have "mark_entry row' now' att = Inl AlreadyMarked"
    using False assms(2,3) by (intro mark_entry_exists) simp
  ultimately show ?thesis using one by (simp add: table_after_def)
qed

lemma today_noon: "strftime_Ymd noon = ''2024-01-01''"
  by code_simp

lemma today_evening: "strftime_Ymd evening = ''2024-01-01''"
  by code_simp

lemma time_noon: "strftime_HMS noon = ''12:00:00''"
  by code_simp

lemma time_evening: "strftime_HMS evening = ''18:30:05''"
  by code_simp

lemma entry_page_ledger:
  "ledger (ATT_FILE st) \<Longrightarrow> ledger (ATT_FILE (snd (attendance_entry verify upl now st)))"
  by (auto simp: attendance_entry_def Let_def intro: ledger_entry
      split: option.splits resolution.splits sum.splits)

lemma exit_page_ledger:
  "ledger (ATT_FILE st) \<Longrightarrow> ledger (ATT_FILE (snd (attendance_exit verify upl now st)))"
  by (auto simp: attendance_exit_def Let_def intro: ledger_exit
      split: option.splits resolution.splits sum.splits)

lemma register_ATT_FILE: "ATT_FILE (snd (register_member isdir f st)) = ATT_FILE st"
  by (auto simp: register_member_def Let_def split: option.splits prod.splits sum.splits)

lemma delete_ledger:
  "ledger (ATT_FILE st) \<Longrightarrow> delete_member sel_id now st = Inr (msg, st') \<Longrightarrow> ledger (ATT_FILE st')"
  by (auto simp: delete_member_def Let_def intro: ledger_delete split: if_splits list.splits)

text \<open>
  C3. For a member and a time, with the date of that time: when the table has a record of
  this ID and date, open or closed, marking the entry fails with AlreadyMarked; otherwise
  it appends one record with the ID, the name, the date, the time as EntryTime, no ExitTime
  and the status Present. So after two calls for the same ID and date (on a table with at
  most one record of them, as every table the program produces has) the second call has
  failed and changed nothing, and there is exactly one record. In every table the program
  produces, each ID and date has at most one record, hence at most one open record; the
  tables meant are the empty one and what the Entry, Exit, Register and Delete pages make
  of such a table.
\<close>

theorem mark_entry_contract:
  "(records_for (ID row) (strftime_Ymd now) att \<noteq> [] \<longrightarrow>
      mark_entry row now att = Inl AlreadyMarked) \<and>
   (records_for (ID row) (strftime_Ymd now) att = [] \<longrightarrow>
      mark_entry row now att =
        Inr (att @ [\<lparr>att_ID = ID row, att_Name = Name row, Date = strftime_Ymd now,
                     EntryTime = strftime_HMS now, ExitTime = [], Status = ''Present''\<rparr>])) \<and>
   (length (records_for (ID row) (strftime_Ymd now) att) \<le> 1 \<and>
    ID row' = ID row \<and> strftime_Ymd now' = strftime_Ymd now \<longrightarrow>
      (let att1 = table_after att (mark_entry row now att) in
         mark_entry row' now' att1 = Inl AlreadyMarked \<and>
         table_after att1 (mark_entry row' now' att1) = att1 \<and>
         length (records_for (ID row) (strftime_Ymd now) att1) = 1)) \<and>
   (ledger att \<longrightarrow>
      length (records_for member_id date att) \<le> 1 \<and>
      length (filter (is_open member_id date) att) \<le> 1) \<and>
   ledger [] \<and>
   (ledger (ATT_FILE st) \<longrightarrow>
      ledger (ATT_FILE (snd (attendance_entry verify upl t st))) \<and>
      ledger (ATT_FILE (snd (attendance_exit verify upl t st))) \<and>
      ledger (ATT_FILE (snd (register_member isdir f st))) \<and>
      (\<forall>msg st'. delete_member sel_id t st = Inr (msg, st') \<longrightarrow> ledger (ATT_FILE st')))"
proof (intro conjI impI allI)
  show "ledger []" by (rule ledger_empty)
  show "ledger (ATT_FILE st) \<Longrightarrow> ledger (ATT_FILE (snd (attendance_entry verify upl t st)))"
    by (rule entry_page_ledger)
  show "ledger (ATT_FILE st) \<Longrightarrow> ledger (ATT_FILE (snd (attendance_exit verify upl t st)))"
    by (rule exit_page_ledger)
  show "ledger (ATT_FILE st) \<Longrightarrow> ledger (ATT_FILE (snd (register_member isdir f st)))"
    by (simp add: register_ATT_FILE)
  show "ledger (ATT_FILE st) \<Longrightarrow> delete_member sel_id t st = Inr (msg, st') \<Longrightarrow>
      ledger (ATT_FILE st')" for msg st'
    by (rule delete_ledger)
  show "ledger att \<Longrightarrow> length (records_for member_id date att) \<le> 1"
    by (rule ledger_unique)
  show "ledger att \<Longrightarrow> length (filter (is_open member_id date) att) \<le> 1"
    using ledger_unique [of att member_id date] open_le_records [of member_id date att] by simp
next
  assume "length (records_for (ID row) (strftime_Ymd now) att) \<le> 1 \<and>
    ID row' = ID row \<and> strftime_Ymd now' = strftime_Ymd now"
  then show "let att1 = table_after att (mark_entry row now att) in
         mark_entry row' now' att1 = Inl AlreadyMarked \<and>
         table_after att1 (mark_entry row' now' att1) = att1 \<and>
         length (records_for (ID row) (strftime_Ymd now) att1) = 1"
    using entry_twice [of row now att row' now'] by blast
qed (simp_all add: mark_entry_exists mark_entry_new)

theorem mark_entry_contract_witness:
  "ledger [] \<and>
   mark_entry member_5 noon [] =
     Inr [\<lparr>att_ID = ''5'', att_Name = ''Lena'', Date = ''2024-01-01'', EntryTime = ''12:00:00'',
           ExitTime = [], Status = ''Present''\<rparr>] \<and>
   mark_entry member_5 evening
     [\<lparr>att_ID = ''5'', att_Name = ''Lena'', Date = ''2024-01-01'', EntryTime = ''12:00:00'',
       ExitTime = [], Status = ''Present''\<rparr>] = Inl AlreadyMarked \<and>
   mark_entry member_5 evening
     [\<lparr>att_ID = ''5'', att_Name = ''Lena'', Date = ''2024-01-01'', EntryTime = ''12:00:00'',
       ExitTime = ''13:00:00'', Status = ''Exited''\<rparr>] = Inl AlreadyMarked"
  using mark_entry_contract [of member_5 noon "[]" member_5 evening]
    mark_entry_contract [of member_5 evening
      "[\<lparr>att_ID = ''5'', att_Name = ''Lena'', Date = ''2024-01-01'', EntryTime = ''12:00:00'',
         ExitTime = ''13:00:00'', Status = ''Exited''\<rparr>]"]
  by (simp add: ledger_empty records_for_def table_after_def today_noon today_evening time_noon
      mark_entry_def Let_def member_5_def)

text \<open>
  C4. Marking the exit succeeds exactly when the table has a record of the member's ID and
  of today without ExitTime, and fails with NoOpenEntry otherwise. On success the record
  changed is the first such record of the table: its ExitTime becomes the current time
  (which is not empty) and its status Exited, its EntryTime, ID, name and date stay, and
  every other record and the length of the table are unchanged.
\<close>

theorem mark_exit_contract:
  "((\<exists>att'. mark_exit row now att = Inr att') \<longleftrightarrow>
      (\<exists>r\<in>set att. is_open (ID row) (strftime_Ymd now) r)) \<and>
   ((\<forall>r\<in>set att. \<not> is_open (ID row) (strftime_Ymd now) r) \<longrightarrow>
      mark_exit row now att = Inl NoOpenEntry) \<and>
   (mark_exit row now att = Inr att' \<longrightarrow>
      (\<exists>idx<length att.
         is_open (ID row) (strftime_Ymd now) (att ! idx) \<and>
         (\<forall>j<idx. \<not> is_open (ID row) (strftime_Ymd now) (att ! j)) \<and>
         length att' = length att \<and>
         (\<forall>j<length att. j \<noteq> idx \<longrightarrow> att' ! j = att ! j) \<and>
         att' ! idx = (att ! idx)\<lparr>ExitTime := strftime_HMS now, Status := ''Exited''\<rparr> \<and>
         ExitTime (att' ! idx) = strftime_HMS now \<and> ExitTime (att' ! idx) \<noteq> [] \<and>
         Status (att' ! idx) = ''Exited'' \<and>
         EntryTime (att' ! idx) = EntryTime (att ! idx) \<and>
         att_ID (att' ! idx) = att_ID (att ! idx) \<and>
         att_Name (att' ! idx) = att_Name (att ! idx) \<and>
         Date (att' ! idx) = Date (att ! idx)))"
proof (intro conjI impI)
  show "(\<exists>att'. mark_exit row now att = Inr att') \<longleftrightarrow>
      (\<exists>r\<in>set att. is_open (ID row) (strftime_Ymd now) r)"
  proof
    assume "\<exists>att'. mark_exit row now att = Inr att'"
    then obtain att' where ok: "mark_exit row now att = Inr att'" by blast
    show "\<exists>r\<in>set att. is_open (ID row) (strftime_Ymd now) r"
    proof (rule ccontr)
      assume "\<not> (\<exists>r\<in>set att. is_open (ID row) (strftime_Ymd now) r)"
      then have "mark_exit row now att = Inl NoOpenEntry" by (intro mark_exit_none) simp
      with ok show False by simp
    qed
  next
    assume "\<exists>r\<in>set att. is_open (ID row) (strftime_Ymd now) r"
    from mark_exit_some [OF this] show "\<exists>att'. mark_exit row now att = Inr att'" by blast
  qed
next
  assume "\<forall>r\<in>set att. \<not> is_open (ID row) (strftime_Ymd now) r"
  then show "mark_exit row now att = Inl NoOpenEntry" by (rule mark_exit_none)
next
  assume "mark_exit row now att = Inr att'"
  from mark_exit_Inr_D [OF this] obtain idx where idx: "idx < length att"
    "is_open (ID row) (strftime_Ymd now) (att ! idx)"
    "\<forall>j<idx. \<not> is_open (ID row) (strftime_Ymd now) (att ! j)"
    "att' = att[idx := (att ! idx)\<lparr>ExitTime := strftime_HMS now, Status := ''Exited''\<rparr>]"
    by blast
  show "\<exists>idx<length att.
         is_open (ID row) (strftime_Ymd now) (att ! idx) \<and>
         (\<forall>j<idx. \<not> is_open (ID row) (strftime_Ymd now) (att ! j)) \<and>
         length att' = length att \<and>
         (\<forall>j<length att. j \<noteq> idx \<longrightarrow> att' ! j = att ! j) \<and>
         att' ! idx = (att ! idx)\<lparr>ExitTime := strftime_HMS now, Status := ''Exited''\<rparr> \<and>
         ExitTime (att' ! idx) = strftime_HMS now \<and> ExitTime (att' ! idx) \<noteq> [] \<and>
         Status (att' ! idx) = ''Exited'' \<and>
         EntryTime (att' ! idx) = EntryTime (att ! idx) \<and>
         att_ID (att' ! idx) = att_ID (att ! idx) \<and>
         att_Name (att' ! idx) = att_Name (att ! idx) \<and>
         Date (att' ! idx) = Date (att ! idx)"
    using idx by (intro exI [of _ idx]) (simp add: strftime_HMS_nonempty)
qed

theorem mark_exit_contract_witness:
  "mark_exit member_5 evening
     [\<lparr>att_ID = ''5'', att_Name = ''Lena'', Date = ''2024-01-01'', EntryTime = ''12:00:00'',
       ExitTime = [], Status = ''Present''\<rparr>] =
   Inr [\<lparr>att_ID = ''5'', att_Name = ''Lena'', Date = ''2024-01-01'', EntryTime = ''12:00:00'',
         ExitTime = ''18:30:05'', Status = ''Exited''\<rparr>] \<and>
   mark_exit member_5 evening
     [\<lparr>att_ID = ''5'', att_Name = ''Lena'', Date = ''2024-01-01'', EntryTime = ''12:00:00'',
       ExitTime = ''13:00:00'', Status = ''Exited''\<rparr>] = Inl NoOpenEntry"
  using mark_exit_contract [of member_5 evening
      "[\<lparr>att_ID = ''5'', att_Name = ''Lena'', Date = ''2024-01-01'', EntryTime = ''12:00:00'',
         ExitTime = [], Status = ''Present''\<rparr>]"]
    mark_exit_contract [of member_5 evening
      "[\<lparr>att_ID = ''5'', att_Name = ''Lena'', Date = ''2024-01-01'', EntryTime = ''12:00:00'',
         ExitTime = ''13:00:00'', Status = ''Exited''\<rparr>]"]
  by (simp add: mark_exit_def is_open_def today_evening time_evening member_5_def)

section \<open>Deleting a member\<close>

lemma load_deleted_id: "load_deleted tbl = tbl"
  by (simp add: load_deleted_def)

lemma filter_hd_find: "filter P xs = x # ys \<Longrightarrow> find P xs = Some x"
  by (induction xs) (auto split: if_splits)

lemma delete_member_Deleted_D:
  assumes "delete_member sel_id now st = Inr (MemberDeleted, st')"
  shows "\<exists>row. find (\<lambda>m. ID m = sel_id) (MEM_FILE st) = Some row \<and>
           st' = st\<lparr>DELETED_FILE := DELETED_FILE st @ [member.extend row \<lparr>DeletedAt = str_datetime now\<rparr>],
                   disk := (if ImagePath row \<noteq> [] \<and> disk st (ImagePath row) \<noteq> None
                            then (disk st)(ImagePath row := None) else disk st),
                   MEM_FILE := filter (\<lambda>m. ID m \<noteq> sel_id) (MEM_FILE st),
                   ATT_FILE := filter (\<lambda>r. att_ID r \<noteq> sel_id) (ATT_FILE st)\<rparr>"
proof (cases "filter (\<lambda>m. ID m = sel_id) (MEM_FILE st)")
  case Nil
  with assms show ?thesis
    by (simp add: delete_member_def Let_def split: if_splits)
next
  case (Cons row rest)
  then have "find (\<lambda>m. ID m = sel_id) (MEM_FILE st) = Some row" by (rule filter_hd_find)
  with assms Cons show ?thesis
    by (auto simp: delete_member_def Let_def load_deleted_id split: if_splits)
qed

lemma delete_member_selected:
  assumes "sel_id \<noteq> []" "sel_id \<noteq> ''--select--''" "sel_id \<in> set (map ID (MEM_FILE st))"
  shows "\<exists>st'. delete_member sel_id now st = Inr (MemberDeleted, st')"
proof -
  from assms(3) have ne: "MEM_FILE st \<noteq> []" by auto
  from assms(3) have "filter (\<lambda>m. ID m = sel_id) (MEM_FILE st) \<noteq> []"
    by (auto simp: filter_empty_conv)
  then obtain row rest where "filter (\<lambda>m. ID m = sel_id) (MEM_FILE st) = row # rest"
    by (cases "filter (\<lambda>m. ID m = sel_id) (MEM_FILE st)") auto
  with assms(1,2) ne show ?thesis by (simp add: delete_member_def Let_def)
qed

lemma str_evening: "str_datetime evening = ''2024-01-01 18:30:05.000250''"
  by code_simp

text \<open>
  C6. The delete button works for every ID chosen from the select box. After a deletion no
  row of the members table has the ID; the archive has one more row at its end, equal to
  the (first) row the member had, with the time of the deletion as DeletedAt; and the
  attendance table has lost exactly its records of this ID.
\<close>

theorem delete_member_contract:
  "(sel_id \<noteq> [] \<and> sel_id \<noteq> ''--select--'' \<and> sel_id \<in> set (map ID (MEM_FILE st)) \<longrightarrow>
      (\<exists>st'. delete_member sel_id now st = Inr (MemberDeleted, st'))) \<and>
   (delete_member sel_id now st = Inr (MemberDeleted, st') \<longrightarrow>
      (\<forall>m\<in>set (MEM_FILE st'). ID m \<noteq> sel_id) \<and>
      MEM_FILE st' = filter (\<lambda>m. ID m \<noteq> sel_id) (MEM_FILE st) \<and>
      (\<exists>row archived.
         find (\<lambda>m. ID m = sel_id) (MEM_FILE st) = Some row \<and>
         DELETED_FILE st' = DELETED_FILE st @ [archived] \<and>
         member.truncate archived = row \<and> DeletedAt archived = str_datetime now) \<and>
      ATT_FILE st' = filter (\<lambda>r. att_ID r \<noteq> sel_id) (ATT_FILE st) \<and>
      (\<forall>r\<in>set (ATT_FILE st'). att_ID r \<noteq> sel_id) \<and>
      (\<forall>r\<in>set (ATT_FILE st). att_ID r \<noteq> sel_id \<longrightarrow> r \<in> set (ATT_FILE st')))"
proof (intro conjI impI)
  assume "sel_id \<noteq> [] \<and> sel_id \<noteq> ''--select--'' \<and> sel_id \<in> set (map ID (MEM_FILE st))"
  then show "\<exists>st'. delete_member sel_id now st = Inr (MemberDeleted, st')"
    using delete_member_selected [of sel_id st now] by blast
next
  assume d: "delete_member sel_id now st = Inr (MemberDeleted, st')"
  from delete_member_Deleted_D [OF d] obtain row where row:
    "find (\<lambda>m. ID m = sel_id) (MEM_FILE st) = Some row"
    "st' = st\<lparr>DELETED_FILE := DELETED_FILE st @ [member.extend row \<lparr>DeletedAt = str_datetime now\<rparr>],
                   disk := (if ImagePath row \<noteq> [] \<and> disk st (ImagePath row) \<noteq> None
                            then (disk st)(ImagePath row := None) else disk st),
                   MEM_FILE := filter (\<lambda>m. ID m \<noteq> sel_id) (MEM_FILE st),
                   ATT_FILE := filter (\<lambda>r. att_ID r \<noteq> sel_id) (ATT_FILE st)\<rparr>"
    by blast
  show "\<forall>m\<in>set (MEM_FILE st'). ID m \<noteq> sel_id" using row(2) by simp
  show "MEM_FILE st' = filter (\<lambda>m. ID m \<noteq> sel_id) (MEM_FILE st)" using row(2) by simp
  show "ATT_FILE st' = filter (\<lambda>r. att_ID r \<noteq> sel_id) (ATT_FILE st)" using row(2) by simp
  show "\<forall>r\<in>set (ATT_FILE st'). att_ID r \<noteq> sel_id" using row(2) by simp
  show "\<forall>r\<in>set (ATT_FILE st). att_ID r \<noteq> sel_id \<longrightarrow> r \<in> set (ATT_FILE st')" using row(2) by simp
  show "\<exists>row archived.
         find (\<lambda>m. ID m = sel_id) (MEM_FILE st) = Some row \<and>
         DELETED_FILE st' = DELETED_FILE st @ [archived] \<and>
         member.truncate archived = row \<and> DeletedAt archived = str_datetime now"
    using row
    by (intro exI [of _ row] exI [of _ "member.extend row \<lparr>DeletedAt = str_datetime now\<rparr>"])
       (simp add: member.defs)
qed

theorem delete_member_contract_witness:
  "delete_member ''5'' evening state_5 =
     Inr (MemberDeleted,
          \<lparr>MEM_FILE = [member_1],
           ATT_FILE = [\<lparr>att_ID = ''1'', att_Name = ''Asha'', Date = ''2024-01-01'',
                        EntryTime = ''12:10:00'', ExitTime = ''13:00:00'', Status = ''Exited''\<rparr>],
           DELETED_FILE = [member.extend member_5 \<lparr>DeletedAt = ''2024-01-01 18:30:05.000250''\<rparr>],
           disk = Map.empty\<rparr>)"
  using delete_member_contract [of "''5''" state_5 evening]
  by (simp add: delete_member_def state_5_def member_1_def member_5_def load_deleted_def
      str_evening Let_def)

section \<open>Integers as strings, and the ID generator\<close>

lemma digit_chars:
  "digit_char 0 = CHR ''0''" "digit_char 1 = CHR ''1''" "digit_char 2 = CHR ''2''"
  "digit_char 3 = CHR ''3''" "digit_char 4 = CHR ''4''" "digit_char 5 = CHR ''5''"
  "digit_char 6 = CHR ''6''" "digit_char 7 = CHR ''7''" "digit_char 8 = CHR ''8''"
  "digit_char 9 = CHR ''9''"
  by code_simp+

lemma digit_val_digit_char: "d < 10 \<Longrightarrow> digit_val (digit_char d) = Some d"
  by (simp add: digit_val_def digit_char_def Let_def)

lemma digit_char_not_underscore: "d < 10 \<Longrightarrow> digit_char d \<noteq> CHR ''_''"
  using digit_val_digit_char [of d] by (auto simp: digit_val_def Let_def)

lemma digit_val_not_underscore: "digit_val c = Some v \<Longrightarrow> c \<noteq> CHR ''_''"
  by (auto simp: digit_val_def Let_def split: if_splits)

lemma parse_digits_snoc:
  "\<forall>c\<in>set ds. digit_val c \<noteq> None \<Longrightarrow> d < 10 \<Longrightarrow>
   parse_digits acc (ds @ [digit_char d]) = map_option (\<lambda>a. 10 * a + d) (parse_digits acc ds)"
proof (induction ds arbitrary: acc)
  case Nil
  then show ?case by (simp add: digit_val_digit_char digit_char_not_underscore)
next
  case (Cons c cs)
  from Cons.prems obtain v where v: "digit_val c = Some v" by auto
  then have "c \<noteq> CHR ''_''" by (rule digit_val_not_underscore)
  with v Cons show ?case by simp
qed

lemma parse_literal_snoc:
  "ds \<noteq> [] \<Longrightarrow> \<forall>c\<in>set ds. digit_val c \<noteq> None \<Longrightarrow> d < 10 \<Longrightarrow>
   parse_literal (ds @ [digit_char d]) = map_option (\<lambda>a. 10 * a + d) (parse_literal ds)"
  by (cases ds) (auto simp: parse_literal_def parse_digits_snoc)

lemma decimal_digits: "decimal n \<noteq> [] \<and> (\<forall>c\<in>set (decimal n). digit_val c \<noteq> None)"
proof (induction n rule: decimal.induct)
  case (1 n)
  show ?case
  proof (cases "n < 10")
    case True
    then show ?thesis by (subst decimal.simps, subst (2) decimal.simps) (simp add: digit_val_digit_char)
  next
    case False
    with 1 show ?thesis
      by (subst decimal.simps, subst (2) decimal.simps) (simp add: digit_val_digit_char)
  qed
qed

lemma parse_literal_decimal: "parse_literal (decimal n) = Some n"
proof (induction n rule: decimal.induct)
  case (1 n)
  show ?case
  proof (cases "n < 10")
    case True
    then show ?thesis
      by (subst decimal.simps) (simp add: parse_literal_def digit_val_digit_char)
  next
    case False
    then have "decimal n = decimal (n div 10) @ [digit_char (n mod 10)]"
      by (subst decimal.simps) simp
    moreover have "parse_literal (decimal (n div 10)) = Some (n div 10)"
      using False by (intro 1) simp
    ultimately show ?thesis
      using decimal_digits [of "n div 10"] by (simp add: parse_literal_snoc)
  qed
qed

lemma decimal_no_underscore: "filter (\<lambda>d. d \<noteq> CHR ''_'') (decimal n) = decimal n"
proof -
  have "\<forall>c\<in>set (decimal n). c \<noteq> CHR ''_''"
    using decimal_digits [of n] digit_val_not_underscore by fastforce
  then show ?thesis by simp
qed

lemma parse_decimal_decimal:
  "length (decimal n) \<le> int_max_str_digits \<Longrightarrow> parse_decimal (decimal n) = Some n"
  by (simp add: parse_decimal_def parse_literal_decimal decimal_no_underscore)

lemma digit_not_space: "digit_val c \<noteq> None \<Longrightarrow> \<not> int_isspace c"
  by (auto simp: digit_val_def int_isspace_def Let_def split: if_splits)

lemma digit_not_sign: "digit_val c \<noteq> None \<Longrightarrow> c \<noteq> CHR ''-'' \<and> c \<noteq> CHR ''+''"
  by (auto simp: digit_val_def Let_def split: if_splits)

lemma int_strip_id:
  assumes "s \<noteq> []" "\<not> int_isspace (hd s)" "\<not> int_isspace (last s)"
  shows "int_strip s = s"
proof -
  have "dropWhile int_isspace s = s" using assms(1,2) by (cases s) auto
  moreover have "dropWhile int_isspace (rev s) = rev s"
    using assms(1,3) by (cases "rev s") (auto simp: last_rev [symmetric] simp del: last_rev)
  ultimately show ?thesis by (simp add: int_strip_def)
qed

lemma decimal_hd_last:
  "digit_val (hd (decimal n)) \<noteq> None \<and> digit_val (last (decimal n)) \<noteq> None"
  using decimal_digits [of n] by (cases "decimal n") auto

lemma py_int_decimal:
  assumes "length (decimal n) \<le> int_max_str_digits"
  shows "py_int (decimal n) = Some (int n)"
proof -
  have ne: "decimal n \<noteq> []" using decimal_digits by blast
  have "\<not> int_isspace (hd (decimal n))" "\<not> int_isspace (last (decimal n))"
    using decimal_hd_last [of n] digit_not_space by blast+
  with ne have strip: "int_strip (decimal n) = decimal n"
    by (intro int_strip_id)
  obtain c cs where c: "decimal n = c # cs" using ne by (cases "decimal n") auto
  with decimal_hd_last [of n] have "digit_val c \<noteq> None" by simp
  then have "c \<noteq> CHR ''-''" "c \<noteq> CHR ''+''"
    using digit_not_sign by blast+
  moreover have "int_strip (c # cs) = c # cs" using strip c by simp
  ultimately show ?thesis
    using parse_decimal_decimal [OF assms] by (simp add: py_int_def c)
qed

lemma py_int_minus_decimal:
  assumes "length (decimal n) \<le> int_max_str_digits"
  shows "py_int (CHR ''-'' # decimal n) = Some (- int n)"
proof -
  have ne: "decimal n \<noteq> []" using decimal_digits by blast
  have "\<not> int_isspace (CHR ''-'')" by (simp add: int_isspace_def)
  moreover have "\<not> int_isspace (last (decimal n))"
    using decimal_hd_last [of n] digit_not_space by blast
  then have "\<not> int_isspace (last (CHR ''-'' # decimal n))"
    using ne by simp
  ultimately have strip: "int_strip (CHR ''-'' # decimal n) = CHR ''-'' # decimal n"
    by (intro int_strip_id) simp_all
  show ?thesis
    using parse_decimal_decimal [OF assms] by (simp add: py_int_def strip)
qed

text \<open>What \<^verbatim>\<open>str\<close> prints, \<^verbatim>\<open>int\<close> reads.\<close>

lemma py_int_py_str: "py_str n = Inr s \<Longrightarrow> py_int s = Some n"
  by (auto simp: py_str_def Let_def py_int_decimal py_int_minus_decimal split: if_splits)

lemma set_numeric_ids: "set (numeric_ids vs) = {n. \<exists>v\<in>set vs. py_int v = Some n}"
  by (induction vs) (auto split: option.splits)

lemma py_max_Max: "nums \<noteq> [] \<Longrightarrow> py_max nums = Max (set nums)"
  by (cases nums) (simp_all add: Max.set_eq_fold [symmetric])

lemma py_str_1: "py_str 1 = Inr ''1''"
  using digit_chars(2)
  by (simp add: py_str_def int_max_str_digits_def decimal.simps Let_def)

text \<open>
  The generator: "1" for a table without numeric ID, else the string of the greatest
  numeric ID plus one, unless that has too many digits to be printed. An ID it returns
  reads as an integer above every numeric ID of the table, so it is not in the table.
\<close>

lemma generate_member_id_cases:
  "(numeric_ids (map ID ms) = [] \<longrightarrow> generate_member_id ms = Inr ''1'') \<and>
   (numeric_ids (map ID ms) \<noteq> [] \<longrightarrow>
      generate_member_id ms = py_str (Max (set (numeric_ids (map ID ms))) + 1))"
  by (auto simp: generate_member_id_def py_max_Max)

lemma generate_member_id_greater:
  assumes "generate_member_id ms = Inr s"
  shows "\<exists>k. py_int s = Some k \<and> (\<forall>v\<in>set (map ID ms). \<forall>n. py_int v = Some n \<longrightarrow> n < k)"
proof (cases "numeric_ids (map ID ms) = []")
  case True
  have none: "py_int v = None" if "v \<in> set (map ID ms)" for v
  proof (cases "py_int v")
    case (Some n)
    with that have "n \<in> set (numeric_ids (map ID ms))"
      unfolding set_numeric_ids by blast
    with True show ?thesis by simp
  qed simp
  have "s = ''1''" using True assms generate_member_id_cases [of ms] by simp
  then have "py_int s = Some 1" using py_int_py_str [OF py_str_1] by simp
  with none show ?thesis by auto
next
  case False
  let ?nums = "numeric_ids (map ID ms)"
  have gen: "py_str (Max (set ?nums) + 1) = Inr s"
    using False assms generate_member_id_cases [of ms] by simp
  have "n < Max (set ?nums) + 1" if "v \<in> set (map ID ms)" "py_int v = Some n" for v n
  proof -
    from that have "n \<in> set ?nums" by (auto simp: set_numeric_ids)
    then have "n \<le> Max (set ?nums)" by simp
    then show ?thesis by simp
  qed
  then show ?thesis using py_int_py_str [OF gen] by auto
qed

lemma generate_member_id_fresh:
  assumes "generate_member_id ms = Inr s"
  shows "s \<noteq> [] \<and> s \<notin> set (map ID ms)"
proof -
  obtain k where k: "py_int s = Some k"
    "\<forall>v\<in>set (map ID ms). \<forall>n. py_int v = Some n \<longrightarrow> n < k"
    using generate_member_id_greater [OF assms] by blast
  have "s \<noteq> []"
    using k(1) by (auto simp: py_int_def int_strip_def)
  moreover have "s \<notin> set (map ID ms)"
  proof
    assume "s \<in> set (map ID ms)"
    with k have "k < k" by blast
    then show False by simp
  qed
  ultimately show ?thesis by simp
qed

section \<open>Registration and the members file\<close>

text \<open>
  The duplicate check compares the ID with the IDs of the table as it was read: an ID
  found there is refused and nothing changes.
\<close>

lemma register_member_existing:
  assumes "py_strip (id_input f) \<noteq> []" "py_strip (id_input f) \<in> set (map ID (MEM_FILE st))"
  shows "snd (register_member isdir f st) = st"
  using assms by (auto simp: register_member_def Let_def split: option.splits)

text \<open>
  What the attendance pages and the delete button write besides rows they have read (the
  dates, the times, the two statuses, the empty ExitTime) reads back as written, and
  reading back twice is reading back once. So it is on the Register page, which writes
  text typed into the form, that the reading back shows.
\<close>

lemma length_zpad: "length (zpad k n) = k"
  by (induction k arbitrary: n) simp_all

lemma na_values_short: "s \<in> set na_values \<Longrightarrow> length s \<le> 8 \<and> CHR '':'' \<notin> set s"
  by (auto simp: na_values_def)

lemma read_field_long: "8 < length s \<Longrightarrow> read_field s = s"
  using na_values_short [of s] by (auto simp: read_field_def)

lemma read_field_colon: "CHR '':'' \<in> set s \<Longrightarrow> read_field s = s"
  using na_values_short [of s] by (auto simp: read_field_def)

lemma written_fields_read_back:
  "read_field (strftime_Ymd d) = strftime_Ymd d \<and>
   read_field (strftime_HMS t) = strftime_HMS t \<and>
   read_field (str_datetime t) = str_datetime t \<and>
   read_field ''Present'' = ''Present'' \<and>
   read_field ''Exited'' = ''Exited'' \<and>
   read_field [] = [] \<and>
   read_field (read_field s) = read_field s"
proof (intro conjI)
  show "read_field (strftime_Ymd d) = strftime_Ymd d"
    by (rule read_field_long) (simp add: strftime_Ymd_def length_zpad)
  show "read_field (strftime_HMS t) = strftime_HMS t"
    by (rule read_field_colon) (simp add: strftime_HMS_def)
  show "read_field (str_datetime t) = str_datetime t"
    by (rule read_field_colon) (simp add: str_datetime_def strftime_HMS_def)
  show "read_field ''Present'' = ''Present''"
    by (simp add: read_field_def na_values_def)
  show "read_field ''Exited'' = ''Exited''"
    by (simp add: read_field_def na_values_def)
  show "read_field [] = []" by (simp add: read_field_def)
  show "read_field (read_field s) = read_field s" by (simp add: read_field_def)
qed

lemma strip_NA: "py_strip ''NA'' = ''NA''"
  by code_simp

lemma strip_null: "py_strip ''null'' = ''null''"
  by code_simp

lemma path_NA: "image_path ''NA'' ''Nadia Ali'' = ''member_images/NA_Nadia_Ali.jpg''"
  by code_simp

lemma path_null: "image_path ''null'' ''Omar'' = ''member_images/null_Omar.jpg''"
  by code_simp

lemma dir_NA: "dirname ''member_images/NA_Nadia_Ali.jpg'' = ''member_images''"
  by code_simp

lemma dir_null: "dirname ''member_images/null_Omar.jpg'' = ''member_images''"
  by code_simp

lemma fee_500: "py_str 500 = Inr ''500''"
  by (simp add: py_str_def int_max_str_digits_def decimal.simps digit_chars Let_def)

lemma fee_5000: "py_str 5000 = Inr ''5000''"
  by (simp add: py_str_def int_max_str_digits_def decimal.simps digit_chars Let_def)

lemma date_feb_2: "strftime_Ymd \<lparr>year = 2024, month = 2, day = 2\<rparr> = ''2024-02-02''"
  by code_simp

lemma date_feb_3: "strftime_Ymd \<lparr>year = 2024, month = 2, day = 3\<rparr> = ''2024-02-03''"
  by code_simp

lemma read_NA_row:
  "read_member \<lparr>ID = ''NA'', Name = ''Nadia Ali'', Gender = ''Female'',
      Email = ''nadia@example.org'', Mobile = ''5550021'', Membership = ''Monthly'',
      Fee = ''500'', JoinDate = ''2024-02-02'', ImagePath = ''member_images/NA_Nadia_Ali.jpg''\<rparr> =
   \<lparr>ID = [], Name = ''Nadia Ali'', Gender = ''Female'',
      Email = ''nadia@example.org'', Mobile = ''5550021'', Membership = ''Monthly'',
      Fee = ''500'', JoinDate = ''2024-02-02'', ImagePath = ''member_images/NA_Nadia_Ali.jpg''\<rparr>"
  by code_simp

lemma read_NA_row_again:
  "read_member \<lparr>ID = [], Name = ''Nadia Ali'', Gender = ''Female'',
      Email = ''nadia@example.org'', Mobile = ''5550021'', Membership = ''Monthly'',
      Fee = ''500'', JoinDate = ''2024-02-02'', ImagePath = ''member_images/NA_Nadia_Ali.jpg''\<rparr> =
   \<lparr>ID = [], Name = ''Nadia Ali'', Gender = ''Female'',
      Email = ''nadia@example.org'', Mobile = ''5550021'', Membership = ''Monthly'',
      Fee = ''500'', JoinDate = ''2024-02-02'', ImagePath = ''member_images/NA_Nadia_Ali.jpg''\<rparr>"
  by code_simp

lemma register_NA_first:
  "register_member no_other_dir form_NA state_0 =
     (Inr (MemberRegistered ''NA''), state_NA)"
  by (simp add: register_member_def form_NA_def state_0_def state_NA_def capture_def
      save_member_image_def dir_exists_def IMG_DIR_def saved_members_def
      strip_NA path_NA dir_NA fee_500 date_feb_2 read_NA_row Let_def)


lemma register_NA_second:
  "register_member no_other_dir form_NA state_NA =
     (Inr (MemberRegistered ''NA''),
      state_NA\<lparr>MEM_FILE := MEM_FILE state_NA @ MEM_FILE state_NA\<rparr>)"
  by (simp add: register_member_def form_NA_def state_NA_def capture_def
      save_member_image_def dir_exists_def IMG_DIR_def saved_members_def
      strip_NA path_NA dir_NA fee_500 date_feb_2 read_NA_row read_NA_row_again Let_def)

text \<open>
  C10. A registration with an explicit ID that is already registered is not always
  refused. The ID "NA" is stored as typed, but the table reads it back as the empty
  string: the first registration with the ID "NA" leaves a row whose ID reads as empty
  and writes the photo; the second registration with the same ID passes the duplicate
  check, is answered as registered, changes the state, and the table has two rows for
  the same member.
\<close>

theorem register_NA_twice:
  "py_strip (id_input form_NA) = ''NA'' \<and>
   register_member no_other_dir form_NA state_0 = (Inr (MemberRegistered ''NA''), state_NA) \<and>
   map ID (MEM_FILE state_NA) = [[]] \<and>
   disk state_NA ''member_images/NA_Nadia_Ali.jpg'' = Some ''jpeg of the capture'' \<and>
   fst (register_member no_other_dir form_NA state_NA) = Inr (MemberRegistered ''NA'') \<and>
   snd (register_member no_other_dir form_NA state_NA) \<noteq> state_NA \<and>
   length (MEM_FILE (snd (register_member no_other_dir form_NA state_NA))) = 2 \<and>
   map Name (MEM_FILE (snd (register_member no_other_dir form_NA state_NA))) =
     [''Nadia Ali'', ''Nadia Ali'']"
proof -
  have "state_NA\<lparr>MEM_FILE := MEM_FILE state_NA @ MEM_FILE state_NA\<rparr> \<noteq> state_NA"
    by (simp add: state_NA_def)
  then show ?thesis
    by (simp add: register_NA_first register_NA_second) (simp add: state_NA_def form_NA_def strip_NA)
qed

lemma read_null_row:
  "read_member \<lparr>ID = ''null'', Name = ''Omar'', Gender = ''Male'',
      Email = ''omar@example.org'', Mobile = ''5550022'', Membership = ''Yearly'',
      Fee = ''5000'', JoinDate = ''2024-02-03'', ImagePath = ''member_images/null_Omar.jpg''\<rparr> =
   \<lparr>ID = [], Name = ''Omar'', Gender = ''Male'',
      Email = ''omar@example.org'', Mobile = ''5550022'', Membership = ''Yearly'',
      Fee = ''5000'', JoinDate = ''2024-02-03'', ImagePath = ''member_images/null_Omar.jpg''\<rparr>"
  by code_simp

lemma read_member_1: "read_member member_1 = member_1"
  by code_simp

lemma read_member_5: "read_member member_5 = member_5"
  by code_simp

lemma register_null:
  "register_member no_other_dir form_null state_5 =
     (Inr (MemberRegistered ''null''),
      state_5\<lparr>MEM_FILE := [member_1, member_5,
                  \<lparr>ID = [], Name = ''Omar'', Gender = ''Male'',
                    Email = ''omar@example.org'', Mobile = ''5550022'', Membership = ''Yearly'',
                    Fee = ''5000'', JoinDate = ''2024-02-03'',
                    ImagePath = ''member_images/null_Omar.jpg''\<rparr>],
               disk := (disk state_5)(''member_images/null_Omar.jpg'' \<mapsto> ''jpeg of the capture'')\<rparr>)"
proof -
  have ids: "map ID (MEM_FILE state_5) = [''1'', ''5'']"
    by (simp add: state_5_def member_1_def member_5_def)
  have mem: "MEM_FILE state_5 = [member_1, member_5]" by (simp add: state_5_def)
  show ?thesis
    using ids
    by (simp add: register_member_def form_null_def capture_def mem
      save_member_image_def dir_exists_def IMG_DIR_def saved_members_def
      strip_null path_null dir_null fee_5000 date_feb_3 read_null_row read_member_1
      read_member_5 Let_def)
qed

lemma generate_after_null:
  "generate_member_id [member_1, member_5,
                  \<lparr>ID = [], Name = ''Omar'', Gender = ''Male'',
                    Email = ''omar@example.org'', Mobile = ''5550022'', Membership = ''Yearly'',
                    Fee = ''5000'', JoinDate = ''2024-02-03'',
                    ImagePath = ''member_images/null_Omar.jpg''\<rparr>] = Inr ''6''"
  by code_simp

text \<open>
  C8. The generator answers "6" for the table with the IDs "1" and "5". A registration
  with the ID "null", which is not empty and not in that table, is answered as registered,
  but the table has then no row with this ID: the row added reads back with an empty ID.
  The generator still answers "6".
\<close>

theorem register_null_loses_id:
  "py_strip (id_input form_null) = ''null'' \<and>
   ''null'' \<notin> set (map ID (MEM_FILE state_5)) \<and>
   fst (register_member no_other_dir form_null state_5) = Inr (MemberRegistered ''null'') \<and>
   map ID (MEM_FILE (snd (register_member no_other_dir form_null state_5))) = [''1'', ''5'', []] \<and>
   filter (\<lambda>m. ID m = ''null'') (MEM_FILE (snd (register_member no_other_dir form_null state_5))) = [] \<and>
   generate_member_id (MEM_FILE state_5) = Inr ''6'' \<and>
   generate_member_id (MEM_FILE (snd (register_member no_other_dir form_null state_5))) = Inr ''6''"
proof -
  have g: "generate_member_id (MEM_FILE state_5) = Inr ''6''" by code_simp
  show ?thesis
    by (simp add: register_null generate_after_null g)
       (simp add: state_5_def form_null_def strip_null member_1_def member_5_def)
qed

section \<open>The photo file of a member\<close>


















end
